theory Spec2Isabelle
  imports Complex_Main
begin

section \<open>Numbers\<close>

text \<open>
  The engraver computes with JavaScript numbers. They are modelled here as real numbers:
  \<open>+\<close>, \<open>-\<close>, \<open>*\<close>, \<open>/\<close>, \<open>Math.min\<close>, \<open>Math.max\<close>, \<open>Math.abs\<close> and \<open>Math.sqrt\<close> are the
  exact operations, so rounding error, \<open>NaN\<close> and the infinities are outside the model.
  A JavaScript division by zero gives an infinity or \<open>NaN\<close> where HOL gives \<open>0\<close>; every
  theorem below whose statement reaches such a division carries the hypothesis that the
  divisor is not zero. \<open>null\<close> and \<open>undefined\<close> are \<open>None\<close>; a \<open>TypeError\<close> raised by
  reading a property of \<open>undefined\<close> is the value \<open>Inl TypeError\<close>. Where the source would go
  on computing with \<open>undefined\<close> as a number (giving \<open>NaN\<close>), the model stops with
  \<open>Inl NaN\<close>.
\<close>

datatype error = TypeError | NaN

text \<open>\<open>Math.round\<close>: the nearest integer, a half rounded towards plus infinity.\<close>

definition Math_round :: "real \<Rightarrow> real" where
  "Math_round v = of_int \<lfloor>v + 1 / 2\<rfloor>"

section \<open>The horizontal spacing solver\<close>

text \<open>
  \<open>calcHorizontalSpacing\<close> of the engraver controller. \<open>null\<close> (stop the negotiation) is
  \<open>None\<close>; the new spacing coefficient is \<open>Some\<close>.
\<close>

definition calcHorizontalSpacing ::
  "bool \<Rightarrow> bool \<Rightarrow> real \<Rightarrow> real \<Rightarrow> real \<Rightarrow> real \<Rightarrow> real \<Rightarrow> real option" where
  "calcHorizontalSpacing isLastLine stretchLast targetWidth lineWidth spacing spacingUnits minSpace =
     (if isLastLine \<and> lineWidth / targetWidth < 0.66 \<and> \<not> stretchLast then None
      else if \<bar>targetWidth - lineWidth\<bar> < 2 then None
      else
        let relSpace = spacingUnits * spacing;
            constSpace = lineWidth - relSpace
        in if spacingUnits > 0 then
             (let spacing' = (targetWidth - constSpace) / spacingUnits
              in if spacing' * minSpace > 50 then Some (50 / minSpace) else Some spacing')
           else None)"

section \<open>The selection history\<close>

text \<open>
  A history entry links a drawn SVG element to the element of the score it was drawn for
  (\<open>recordHistory\<close> pushes \<open>{absEl, svgEl, selectable, isDraggable}\<close>). Its field \<open>dim\<close> is
  absent until \<open>getDim\<close> stores the bounding box there. Of the SVG element the model keeps
  which node it is and the rectangle its \<open>getBBox()\<close> returns.
\<close>

record SVGRect =
  rect_x :: real
  rect_y :: real
  rect_width :: real
  rect_height :: real

record svgElement =
  node :: nat
  getBBox :: SVGRect

record dim =
  dim_left :: real
  dim_top :: real
  dim_right :: real
  dim_bottom :: real

record 'a historyEl =
  absEl :: 'a
  svgEl :: svgElement
  selectable :: bool
  isDraggable :: bool
  dim :: "dim option"

text \<open>
  The object \<open>getDim\<close> builds from the bounding box:
  \<open>{left: Math.round(box.x), top: Math.round(box.y), right: Math.round(box.x+box.width),
  bottom: Math.round(box.y+box.height)}\<close>.
\<close>

definition roundedBox :: "SVGRect \<Rightarrow> dim" where
  "roundedBox box =
     \<lparr>dim_left = Math_round (rect_x box), dim_top = Math_round (rect_y box),
      dim_right = Math_round (rect_x box + rect_width box),
      dim_bottom = Math_round (rect_y box + rect_height box)\<rparr>"

text \<open>
  \<open>getDim\<close> mutates its argument and returns \<open>historyEl.dim\<close>. The model returns the entry
  as \<open>getDim\<close> leaves it, the box it returns, and the SVG elements whose \<open>getBBox()\<close> it
  called (none or one): the call the source comment names as expensive.
\<close>

definition getDim :: "'a historyEl \<Rightarrow> 'a historyEl \<times> dim \<times> svgElement list" where
  "getDim historyEl =
     (case dim historyEl of
        None \<Rightarrow>
          (let box = getBBox (svgEl historyEl); d = roundedBox box
           in (historyEl\<lparr>dim := Some d\<rparr>, d, [svgEl historyEl]))
      | Some d \<Rightarrow> (historyEl, d, []))"

subsection \<open>combineHistory\<close>

text \<open>\<open>Array.prototype.pop\<close>: the last element and the array without it; \<open>undefined\<close> and the
  empty array on an empty array.\<close>

definition pop :: "'e list \<Rightarrow> 'e option \<times> 'e list" where
  "pop xs = (if xs = [] then (None, []) else (Some (last xs), butlast xs))"

text \<open>The first loop of \<open>combineHistory\<close>: \<open>items.push(this.history.pop())\<close>, \<open>n\<close> times.\<close>

fun popItems :: "nat \<Rightarrow> 'e list \<Rightarrow> 'e option list \<times> 'e list" where
  "popItems 0 history = ([], history)"
| "popItems (Suc n) history =
     (let (item, history') = pop history;
          (items, history'') = popItems n history'
      in (item # items, history''))"

text \<open>The second loop: \<open>getDim(items[i])\<close> for every item, in order. On an item that is
  \<open>undefined\<close>, \<open>getDim\<close> reads \<open>historyEl.dim\<close> of \<open>undefined\<close>: a \<open>TypeError\<close>. The result
  pairs every item with its box and collects the \<open>getBBox()\<close> calls.\<close>

fun getDims ::
  "'a historyEl option list \<Rightarrow> error + (('a historyEl \<times> dim) list \<times> svgElement list)" where
  "getDims [] = Inr ([], [])"
| "getDims (None # items) = Inl TypeError"
| "getDims (Some item # items) =
     (let (item', d, calls) = getDim item
      in case getDims items of
           Inl e \<Rightarrow> Inl e
         | Inr (items', calls') \<Rightarrow> Inr ((item', d) # items', calls @ calls'))"

text \<open>One step of the third loop: \<open>items[0].dim\<close> grows to cover \<open>items[i].dim\<close>.\<close>

definition growDim :: "dim \<Rightarrow> dim \<Rightarrow> dim" where
  "growDim d0 di =
     \<lparr>dim_left = min (dim_left d0) (dim_left di), dim_top = min (dim_top d0) (dim_top di),
      dim_right = max (dim_right d0) (dim_right di),
      dim_bottom = max (dim_bottom d0) (dim_bottom di)\<rparr>"

text \<open>
  \<open>combineHistory(len, svgEl)\<close> on the history list. The result is the new history and the
  \<open>getBBox()\<close> calls made. When the history holds fewer than \<open>len\<close> entries the exception
  leaves the history emptied by the pops; the model returns the error alone.
\<close>

definition combineHistory ::
  "int \<Rightarrow> svgElement \<Rightarrow> 'a historyEl list \<Rightarrow> error + ('a historyEl list \<times> svgElement list)" where
  "combineHistory len svgEl' history =
     (if len < 2 then Inr (history, [])
      else
        (let (items, history') = popItems (nat len) history
         in case getDims items of
              Inl e \<Rightarrow> Inl e
            | Inr ([], calls) \<Rightarrow> Inl TypeError
            | Inr ((item0, d0) # rest, calls) \<Rightarrow>
                (let d = foldl growDim d0 (map snd rest);
                     item0' = item0\<lparr>dim := Some d, svgEl := svgEl'\<rparr>
                 in Inr (history' @ [item0'], calls))))"

subsection \<open>The hit test of mouseDown\<close>

text \<open>
  The loop of \<open>mouseDown\<close>, from index \<open>i\<close> on, over the variables \<open>minDistance\<close> and
  \<open>closestIndex\<close>; the history is returned with the boxes that \<open>getDim\<close> cached. \<open>el.dim\<close> after
  \<open>getDim(el)\<close> is the box \<open>getDim\<close> returns.
\<close>

function mouseDown_loop ::
  "real \<Rightarrow> real \<Rightarrow> nat \<Rightarrow> 'a historyEl list \<Rightarrow> real \<Rightarrow> int
     \<Rightarrow> 'a historyEl list \<times> real \<times> int" where
  "mouseDown_loop x y i history minDistance closestIndex =
     (if i < length history \<and> minDistance > 0 then
        (let el = history ! i
         in if \<not> selectable el then mouseDown_loop x y (i + 1) history minDistance closestIndex
            else
              (let el' = fst (getDim el);
                   d = fst (snd (getDim el));
                   history' = history[i := el']
               in if dim_left d < x \<and> dim_right d > x \<and> dim_top d < y \<and> dim_bottom d > y
                  then mouseDown_loop x y (i + 1) history' 0 (int i)
                  else
                    (let dx = (if \<bar>x - dim_left d\<bar> > \<bar>x - dim_right d\<bar>
                               then \<bar>x - dim_right d\<bar> else \<bar>x - dim_left d\<bar>);
                         dy = (if \<bar>y - dim_top d\<bar> > \<bar>y - dim_bottom d\<bar>
                               then \<bar>y - dim_bottom d\<bar> else \<bar>y - dim_top d\<bar>);
                         hypotenuse = sqrt (dx * dx + dy * dy)
                     in if hypotenuse < minDistance
                        then mouseDown_loop x y (i + 1) history' hypotenuse (int i)
                        else mouseDown_loop x y (i + 1) history' minDistance closestIndex)))
      else (history, minDistance, closestIndex))"
  by pat_completeness auto
termination
  apply (relation "measure (\<lambda>(x, y, i, history, minDistance, closestIndex). length history - i)")
      apply simp
     apply (simp_all only: in_measure prod.case length_list_update)
     apply (elim conjE, rule diff_less_mono2, rule less_add_one, assumption)+
  done

text \<open>\<open>a[i]\<close> on an array: \<open>undefined\<close> outside the array.\<close>

definition js_index :: "'e list \<Rightarrow> int \<Rightarrow> 'e option" where
  "js_index xs i = (if 0 \<le> i \<and> i < int (length xs) then Some (xs ! nat i) else None)"

text \<open>
  The part of the controller that \<open>mouseDown\<close> reads and writes. The pointer position
  \<open>(x, y)\<close> is what \<open>getCoord(ev)\<close> returns. The highlighting of a draggable target (a call
  into the renderer and the element) is left out.
\<close>

record 'a controller =
  history :: "'a historyEl list"
  dragTarget :: "'a historyEl option"
  dragMechanism :: "string option"
  dragMouseStart :: "real \<times> real"

definition mouseDown :: "real \<Rightarrow> real \<Rightarrow> 'a controller \<Rightarrow> 'a controller" where
  "mouseDown x y this =
     (let (history', minDistance, closestIndex) =
            mouseDown_loop x y 0 (history this) 9999999 (- 1);
          this' = this\<lparr>history := history'\<rparr>
      in if closestIndex \<ge> 0 then
           this'\<lparr>dragTarget := js_index history' closestIndex,
                 dragMechanism := Some ''mouse'',
                 dragMouseStart := (x, y)\<rparr>
         else this')"

section \<open>The triplet element\<close>

text \<open>
  \<open>TripletElem\<close> reads, of its two anchors, \<open>x\<close>, \<open>w\<close> and \<open>parent\<close>; of a parent, \<open>top\<close>, \<open>type\<close>
  and \<open>beam\<close>; of a beam, \<open>elems\<close>, \<open>isAbove()\<close>, \<open>heightAtMidpoint\<close> and \<open>xAtMidpoint\<close>. The
  source compares parents and beams as objects (\<open>===\<close>): every parent and every beam carries
  a reference, two objects are the same when their references are equal, and a beam lists
  its members by their references. The beam class is defined outside the files modelled here:
  the answers of its three methods are fields of the beam.
\<close>

record beamElem =
  beam_ref :: nat
  elems :: "nat list"
  isAbove :: bool
  heightAtMidpoint :: "real \<Rightarrow> real \<Rightarrow> real"
  xAtMidpoint :: "real \<Rightarrow> real \<Rightarrow> real"

record absoluteElement =
  abs_ref :: nat
  abs_top :: real
  abs_type :: string
  beam :: "beamElem option"

record relativeElement =
  rel_x :: real
  rel_w :: real
  parent :: absoluteElement

text \<open>Of a middle element \<open>layout\<close> reads \<open>top\<close> alone.\<close>

record middleElem =
  mid_top :: real

text \<open>
  The fields of a \<open>TripletElem\<close>. A field that the object does not have (never set, or
  deleted) is \<open>None\<close>. \<open>this.top\<close> and \<open>this.bottom\<close> are \<open>triplet_top\<close> and \<open>triplet_bottom\<close>.
\<close>

record tripletElem =
  anchor1 :: "relativeElement option"
  anchor2 :: "relativeElement option"
  number :: nat
  durationClass :: string
  middleElems :: "middleElem list option"
  flatBeams :: "bool option"
  endingHeightAbove :: "real option"
  hasBeam :: "bool option"
  yTextPos :: "real option"
  triplet_top :: "real option"
  triplet_bottom :: "real option"
  startNote :: "real option"
  endNote :: "real option"

text \<open>
  The value \<open>layout\<close> leaves in \<open>this.hasBeam\<close>: first
  \<open>!!anchor1.parent.beam && anchor1.parent.beam === anchor2.parent.beam\<close>, then \<open>false\<close> when
  \<open>beam.elems[0]\<close> is not the first parent or \<open>beam.elems[beam.elems.length-1]\<close> is not the
  second.
\<close>

definition layout_hasBeam :: "relativeElement \<Rightarrow> relativeElement \<Rightarrow> bool" where
  "layout_hasBeam a1 a2 =
     (case beam (parent a1) of
        None \<Rightarrow> False
      | Some b \<Rightarrow>
          (let hasBeam0 = (case beam (parent a2) of
                             None \<Rightarrow> False
                           | Some b2 \<Rightarrow> beam_ref b = beam_ref b2)
           in if hasBeam0
                 \<and> (js_index (elems b) 0 \<noteq> Some (abs_ref (parent a1))
                     \<or> js_index (elems b) (int (length (elems b)) - 1) \<noteq> Some (abs_ref (parent a2)))
              then False
              else hasBeam0))"

text \<open>The branch \<open>if (this.hasBeam)\<close>: the number rides on the beam.\<close>

definition layout_beamed ::
  "relativeElement \<Rightarrow> relativeElement \<Rightarrow> tripletElem \<Rightarrow> error + tripletElem" where
  "layout_beamed a1 a2 this =
     (case beam (parent a1) of
        None \<Rightarrow> Inl TypeError
      | Some b \<Rightarrow>
          (let left' = (if isAbove b then rel_x a1 + rel_w a1 else rel_x a1);
               y0 = heightAtMidpoint b left' (rel_x a2);
               y1 = y0 + (if isAbove b then 3 else - 2);
               this1 = this\<lparr>yTextPos := Some y1, triplet_top := Some (y1 + 1),
                            triplet_bottom := Some (y1 - 2)\<rparr>
           in Inr (if isAbove b then this1\<lparr>endingHeightAbove := Some 4\<rparr> else this1)))"

text \<open>The \<open>else\<close> branch: the bracket. \<open>this.middleElems.length\<close> on a triplet whose
  \<open>middleElems\<close> was deleted is a \<open>TypeError\<close>.\<close>

definition layout_bracket ::
  "relativeElement \<Rightarrow> relativeElement \<Rightarrow> tripletElem \<Rightarrow> error + tripletElem" where
  "layout_bracket a1 a2 this =
     (let startNote0 = max (abs_top (parent a1)) 9 + 4;
          endNote0 = max (abs_top (parent a2)) 9 + 4;
          startNote1 = (if abs_type (parent a1) = ''rest'' \<and> abs_type (parent a2) \<noteq> ''rest''
                        then endNote0 else startNote0);
          endNote1 = (if abs_type (parent a1) = ''rest'' \<and> abs_type (parent a2) \<noteq> ''rest''
                      then endNote0
                      else if abs_type (parent a2) = ''rest'' \<and> abs_type (parent a1) \<noteq> ''rest''
                      then startNote1 else endNote0)
      in case middleElems this of
           None \<Rightarrow> Inl TypeError
         | Some ms \<Rightarrow>
             (let max0 = foldl (\<lambda>m e. max m (mid_top e)) 0 ms;
                  max1 = max0 + 4;
                  startNote2 = (if max1 > startNote1 \<or> max1 > endNote1 then max1 else startNote1);
                  endNote2 = (if max1 > startNote1 \<or> max1 > endNote1 then max1 else endNote1);
                  startNote3 = (if flatBeams this = Some True then max startNote2 endNote2
                                else startNote2);
                  endNote3 = (if flatBeams this = Some True then max startNote3 endNote2
                              else endNote2);
                  y = startNote3 + (endNote3 - startNote3) / 2
              in Inr (this\<lparr>startNote := Some startNote3, endNote := Some endNote3,
                           yTextPos := Some y, triplet_top := Some (y + 1)\<rparr>)))"

text \<open>
  \<open>TripletElem.prototype.layout\<close>. The two \<open>delete\<close> statements stand after the test of the
  anchors and run whenever no exception was raised.
\<close>

definition layout :: "tripletElem \<Rightarrow> error + tripletElem" where
  "layout this =
     (let r = (case anchor1 this of
                 None \<Rightarrow> Inr this
               | Some a1 \<Rightarrow>
                   (case anchor2 this of
                      None \<Rightarrow> Inr this
                    | Some a2 \<Rightarrow>
                        if layout_hasBeam a1 a2
                        then layout_beamed a1 a2 (this\<lparr>hasBeam := Some True\<rparr>)
                        else layout_bracket a1 a2 (this\<lparr>hasBeam := Some False\<rparr>)))
      in case r of
           Inl e \<Rightarrow> Inl e
         | Inr this' \<Rightarrow> Inr (this'\<lparr>middleElems := None, flatBeams := None\<rparr>))"

section \<open>Drawing a triplet\<close>

text \<open>
  \<open>drawLine(l, t, r, b)\<close> formats \<open>"M l t L r b"\<close>: the stroke from \<open>(l, t)\<close> to \<open>(r, b)\<close>. The
  model keeps the four numbers; a path string, the concatenation of such strokes, is their
  list. What the renderer receives is a list of primitives: a path (\<open>printPath\<close>) or a text
  (\<open>renderText\<close>), whose label \<open>"" + params.number\<close> is kept as the number.
  \<open>renderer.calcY\<close> is defined outside the files modelled here and is a parameter.
\<close>

type_synonym segment = "real \<times> real \<times> real \<times> real"

record textParams =
  text_x :: real
  text_y :: real
  text_label :: nat
  text_type :: string
  text_anchor :: string
  centerVertically :: bool

datatype primitive = Path "segment list" | Text textParams

definition drawLine :: "real \<Rightarrow> real \<Rightarrow> real \<Rightarrow> real \<Rightarrow> segment" where
  "drawLine l t r b = (l, t, r, b)"

definition drawBracket :: "(real \<Rightarrow> real) \<Rightarrow> real \<Rightarrow> real \<Rightarrow> real \<Rightarrow> real \<Rightarrow> primitive" where
  "drawBracket calcY x1 y1 x2 y2 =
     (let y1 = calcY y1;
          y2 = calcY y2;
          bracketHeight = 5;
          pathString = [];
          pathString = pathString @ [drawLine x1 y1 x1 (y1 + bracketHeight)];
          pathString = pathString @ [drawLine x2 y2 x2 (y2 + bracketHeight)];
          midX = x1 + (x2 - x1) / 2;
          gapWidth = 8;
          slope = (y2 - y1) / (x2 - x1);
          leftEndX = midX - gapWidth;
          leftEndY = y1 + (leftEndX - x1) * slope;
          pathString = pathString @ [drawLine x1 y1 leftEndX leftEndY];
          rightStartX = midX + gapWidth;
          rightStartY = y1 + (rightStartX - x1) * slope;
          pathString = pathString @ [drawLine rightStartX rightStartY x2 y2]
      in Path pathString)"

text \<open>
  \<open>drawTriplet\<close>: the primitives it hands to the renderer, in order. The element set it
  opens and closes around them and the history entry it records for the set are left out.
\<close>

definition drawTriplet :: "(real \<Rightarrow> real) \<Rightarrow> tripletElem \<Rightarrow> error + primitive list" where
  "drawTriplet calcY params =
     (case (anchor1 params, anchor2 params) of
        (Some a1, Some a2) \<Rightarrow>
          (let branch =
                 (if hasBeam params = Some True then
                    (case beam (parent a1) of
                       None \<Rightarrow> Inl TypeError
                     | Some b \<Rightarrow>
                         (let left' = (if isAbove b then rel_x a1 + rel_w a1 else rel_x a1);
                              xTextPos = xAtMidpoint b left' (rel_x a2)
                          in Inr (xTextPos, [])))
                  else
                    (case (startNote params, endNote params) of
                       (Some sn, Some en) \<Rightarrow>
                         (let xTextPos = rel_x a1 + (rel_x a2 + rel_w a2 - rel_x a1) / 2
                          in Inr (xTextPos,
                                  [drawBracket calcY (rel_x a1) sn (rel_x a2 + rel_w a2) en]))
                     | _ \<Rightarrow> Inl NaN))
           in case branch of
                Inl e \<Rightarrow> Inl e
              | Inr (xTextPos, drawn) \<Rightarrow>
                  (case yTextPos params of
                     None \<Rightarrow> Inl NaN
                   | Some yText \<Rightarrow>
                       Inr (drawn @
                            [Text \<lparr>text_x = xTextPos, text_y = calcY yText,
                                   text_label = number params, text_type = ''tripletfont'',
                                   text_anchor = ''middle'', centerVertically = True\<rparr>])))
      | _ \<Rightarrow> Inl TypeError)"

section \<open>Centering whole rests\<close>

text \<open>
  Of an element of a voice \<open>centerWholeRests\<close> reads \<open>x\<close>, \<open>w\<close>, \<open>abcelem.rest.type\<close> and the
  children, and of a child it writes \<open>x\<close>. \<open>rest\<close> is \<open>Some\<close> of the rest's type when
  \<open>abcelem.rest\<close> is there. A voice is the list \<open>voice.children\<close>. Elements are not shared:
  no element stands twice in a voice or in two voices.
\<close>

record childElement =
  child_x :: real

record voiceElement =
  elem_x :: real
  elem_w :: real
  rest :: "string option"
  children :: "childElement list"

text \<open>The inner loop of \<open>centerWholeRests\<close>, from index \<open>j\<close> on.\<close>

function centerWholeRests_voice :: "nat \<Rightarrow> voiceElement list \<Rightarrow> voiceElement list" where
  "centerWholeRests_voice j voice =
     (if int j < int (length voice) - 1 then
        (let absElem = voice ! j
         in if rest absElem = Some ''whole'' \<or> rest absElem = Some ''multimeasure'' then
              (let before = voice ! (j - 1);
                   after = voice ! (j + 1);
                   midpoint = (elem_x after - elem_x before) / 2 + elem_x before;
                   x' = midpoint - elem_w absElem / 2;
                   absElem' = absElem\<lparr>elem_x := x',
                                      children := map (\<lambda>c. c\<lparr>child_x := x'\<rparr>) (children absElem)\<rparr>
               in centerWholeRests_voice (j + 1) (voice[j := absElem']))
            else centerWholeRests_voice (j + 1) voice)
      else voice)"
  by pat_completeness auto
termination
  by (relation "measure (\<lambda>(j, voice). length voice - j)") auto

definition centerWholeRests :: "voiceElement list list \<Rightarrow> voiceElement list list" where
  "centerWholeRests voices = map (centerWholeRests_voice 1) voices"

section \<open>Example data\<close>

text \<open>
  Small inputs on which the operations are run below: a beam over the notes 1, 2 and 3, an
  anchor (a note head 8 wide) with its parent, a triplet as it is before \<open>layout\<close>, and an
  element of a voice with one child.
\<close>

text \<open>A history entry whose SVG element has a bounding box of 10 by 10 at \<open>(x, y)\<close>.\<close>

definition example_entry :: "nat \<Rightarrow> bool \<Rightarrow> real \<Rightarrow> real \<Rightarrow> nat historyEl" where
  "example_entry n sel x y =
     \<lparr>absEl = n,
      svgEl = \<lparr>node = n, getBBox = \<lparr>rect_x = x, rect_y = y, rect_width = 10, rect_height = 10\<rparr>\<rparr>,
      selectable = sel, isDraggable = True, dim = None\<rparr>"

text \<open>A history entry with a wide bounding box: 100 by 10 at \<open>(0, 0)\<close>.\<close>

definition example_wide_entry :: "nat historyEl" where
  "example_wide_entry =
     \<lparr>absEl = 1,
      svgEl = \<lparr>node = 1, getBBox = \<lparr>rect_x = 0, rect_y = 0, rect_width = 100, rect_height = 10\<rparr>\<rparr>,
      selectable = True, isDraggable = True, dim = None\<rparr>"

definition example_beam :: beamElem where
  "example_beam =
     \<lparr>beam_ref = 7, elems = [1, 2, 3], isAbove = True,
      heightAtMidpoint = (\<lambda>l r. 10), xAtMidpoint = (\<lambda>l r. l + (r - l) / 2)\<rparr>"

definition example_anchor :: "nat \<Rightarrow> real \<Rightarrow> string \<Rightarrow> beamElem option \<Rightarrow> real \<Rightarrow> relativeElement" where
  "example_anchor r t ty b x =
     \<lparr>rel_x = x, rel_w = 8, parent = \<lparr>abs_ref = r, abs_top = t, abs_type = ty, beam = b\<rparr>\<rparr>"

definition example_triplet ::
  "relativeElement option \<Rightarrow> relativeElement option \<Rightarrow> middleElem list \<Rightarrow> tripletElem" where
  "example_triplet a1 a2 ms =
     \<lparr>anchor1 = a1, anchor2 = a2, number = 3, durationClass = ''d0-125'',
      middleElems = Some ms, flatBeams = Some False, endingHeightAbove = None,
      hasBeam = None, yTextPos = None, triplet_top = None, triplet_bottom = None,
      startNote = None, endNote = None\<rparr>"

definition example_element :: "real \<Rightarrow> real \<Rightarrow> string option \<Rightarrow> voiceElement" where
  "example_element x w r = \<lparr>elem_x = x, elem_w = w, rest = r, children = [\<lparr>child_x = x\<rparr>]\<rparr>"

section \<open>Notions used to state the properties\<close>

text \<open>The box of a history entry: the one \<open>getDim\<close> returns for it, cached or computed.\<close>

definition boxOf :: "'a historyEl \<Rightarrow> dim" where
  "boxOf historyEl = fst (snd (getDim historyEl))"

text \<open>The pointer \<open>(x, y)\<close> lies strictly inside a box.\<close>

definition inside :: "real \<Rightarrow> real \<Rightarrow> dim \<Rightarrow> bool" where
  "inside x y d = (dim_left d < x \<and> x < dim_right d \<and> dim_top d < y \<and> y < dim_bottom d)"

text \<open>
  The distance \<open>mouseDown\<close> computes to a box that the pointer is not strictly inside: \<open>dx\<close> is
  the smaller of the distances from \<open>x\<close> to the left and to the right edge, \<open>dy\<close> the smaller of
  the distances from \<open>y\<close> to the top and to the bottom edge, and the distance is their
  hypotenuse: the distance from the pointer to the nearest corner of the box.
\<close>

definition cornerDistance :: "real \<Rightarrow> real \<Rightarrow> dim \<Rightarrow> real" where
  "cornerDistance x y d =
     sqrt ((min \<bar>x - dim_left d\<bar> \<bar>x - dim_right d\<bar>)\<^sup>2 + (min \<bar>y - dim_top d\<bar> \<bar>y - dim_bottom d\<bar>)\<^sup>2)"

text \<open>
  The distance from the pointer to a box as the specification describes it: \<open>x\<close> is clamped to
  the span from left to right, \<open>y\<close> to the span from top to bottom, and the distance is the
  hypotenuse of what the clamping moved. It is the distance from the pointer to the nearest
  point of the box.
\<close>

definition clampedDistance :: "real \<Rightarrow> real \<Rightarrow> dim \<Rightarrow> real" where
  "clampedDistance x y d =
     sqrt ((x - max (dim_left d) (min x (dim_right d)))\<^sup>2
           + (y - max (dim_top d) (min y (dim_bottom d)))\<^sup>2)"

text \<open>The distance of the pointer to an entry: zero strictly inside its box.\<close>

definition distanceTo :: "real \<Rightarrow> real \<Rightarrow> 'a historyEl \<Rightarrow> real" where
  "distanceTo x y e = (if inside x y (boxOf e) then 0 else cornerDistance x y (boxOf e))"

text \<open>
  The search the loop performs, as a recursion over the entries from index \<open>i\<close> on: an entry
  replaces the best one so far when it is selectable and strictly nearer.
\<close>

fun best :: "real \<Rightarrow> real \<Rightarrow> nat \<Rightarrow> 'a historyEl list \<Rightarrow> real \<Rightarrow> int \<Rightarrow> real \<times> int" where
  "best x y i [] m c = (m, c)"
| "best x y i (e # es) m c =
     (if selectable e \<and> distanceTo x y e < m
      then best x y (i + 1) es (distanceTo x y e) (int i)
      else best x y (i + 1) es m c)"

text \<open>The test of \<open>centerWholeRests\<close>: a rest of type \<open>whole\<close> or \<open>multimeasure\<close>.\<close>

definition isWholeRest :: "voiceElement \<Rightarrow> bool" where
  "isWholeRest e \<longleftrightarrow> rest e = Some ''whole'' \<or> rest e = Some ''multimeasure''"

text \<open>An element moved between \<open>before\<close> and \<open>after\<close>, as the loop body moves it.\<close>

definition centered :: "voiceElement \<Rightarrow> voiceElement \<Rightarrow> voiceElement \<Rightarrow> voiceElement" where
  "centered before e after =
     e\<lparr>elem_x := (elem_x after - elem_x before) / 2 + elem_x before - elem_w e / 2,
       children := map (\<lambda>c. c\<lparr>child_x := (elem_x after - elem_x before) / 2 + elem_x before - elem_w e / 2\<rparr>)
                     (children e)\<rparr>"

declare mouseDown_loop.simps [simp del]

declare centerWholeRests_voice.simps [simp del]

section \<open>Properties of the spacing solver\<close>

lemma ratio_below_iff:
  fixes targetWidth lineWidth :: real
  assumes "0 < targetWidth"
  shows "lineWidth / targetWidth < 0.66 \<longleftrightarrow> lineWidth < 0.66 * targetWidth"
  using assms by (simp add: pos_divide_less_eq)

text \<open>Without a positive number of spacing units the solver stops, whatever else it is given:
  the division by \<open>spacingUnits\<close> is not reached.\<close>

lemma calcHorizontalSpacing_no_units:
  "spacingUnits \<le> 0 \<Longrightarrow>
   calcHorizontalSpacing isLastLine stretchLast targetWidth lineWidth spacing spacingUnits minSpace
   = None"
  by (simp add: calcHorizontalSpacing_def Let_def)

text \<open>
  C1. On a target width that is positive and a count of spacing units (a number that is not
  negative), the solver returns no coefficient exactly when the line is the last one, is
  narrower than 66 percent of the target and is not to be stretched, or the width is less
  than 2 units away from the target, or there is no spacing unit. In every other case there
  is exactly one coefficient \<open>c\<close> with
  \<open>constantWidth + spacingUnits * c = targetWidth\<close>, where
  \<open>constantWidth = lineWidth - spacingUnits * spacing\<close>, and the solver returns \<open>c\<close>, or
  \<open>50 / minSpace\<close> when \<open>c * minSpace\<close> exceeds 50. The only division by \<open>spacingUnits\<close>
  stands under the test \<open>spacingUnits > 0\<close>.
\<close>

theorem calcHorizontalSpacing_stop_or_solve:
  fixes targetWidth lineWidth spacing spacingUnits minSpace :: real
  assumes target: "0 < targetWidth" and units: "0 \<le> spacingUnits"
  shows
    "((calcHorizontalSpacing isLastLine stretchLast targetWidth lineWidth spacing spacingUnits minSpace = None)
        = ((isLastLine \<and> lineWidth < 0.66 * targetWidth \<and> \<not> stretchLast)
            \<or> \<bar>targetWidth - lineWidth\<bar> < 2 \<or> spacingUnits = 0))
     \<and> (\<not> ((isLastLine \<and> lineWidth < 0.66 * targetWidth \<and> \<not> stretchLast)
            \<or> \<bar>targetWidth - lineWidth\<bar> < 2 \<or> spacingUnits = 0)
        \<longrightarrow> (\<exists>c. (lineWidth - spacingUnits * spacing) + spacingUnits * c = targetWidth
                 \<and> (\<forall>c'. (lineWidth - spacingUnits * spacing) + spacingUnits * c' = targetWidth
                        \<longrightarrow> c' = c)
                 \<and> calcHorizontalSpacing isLastLine stretchLast targetWidth lineWidth spacing
                      spacingUnits minSpace
                    = Some (if c * minSpace > 50 then 50 / minSpace else c)))"
proof -
  let ?short = "isLastLine \<and> lineWidth < 0.66 * targetWidth \<and> \<not> stretchLast"
  let ?near = "\<bar>targetWidth - lineWidth\<bar> < 2"
  let ?calc = "calcHorizontalSpacing isLastLine stretchLast targetWidth lineWidth spacing
                 spacingUnits minSpace"
  let ?const = "lineWidth - spacingUnits * spacing"
  have ratio: "lineWidth / targetWidth < 0.66 \<longleftrightarrow> lineWidth < 0.66 * targetWidth"
    using target by (rule ratio_below_iff)
  have stop: "?calc = None \<longleftrightarrow> (?short \<or> ?near \<or> spacingUnits = 0)"
    unfolding calcHorizontalSpacing_def ratio Let_def using units by auto
  have solve: "\<exists>c. ?const + spacingUnits * c = targetWidth
                 \<and> (\<forall>c'. ?const + spacingUnits * c' = targetWidth \<longrightarrow> c' = c)
                 \<and> ?calc = Some (if c * minSpace > 50 then 50 / minSpace else c)"
    if go: "\<not> (?short \<or> ?near \<or> spacingUnits = 0)"
  proof -
    from go units have pos: "0 < spacingUnits" by simp
    define c where "c = (targetWidth - ?const) / spacingUnits"
    have eq: "?const + spacingUnits * c = targetWidth"
      using pos by (simp add: c_def)
    have uniq: "c' = c" if "?const + spacingUnits * c' = targetWidth" for c'
    proof -
      from that eq have "spacingUnits * c' = spacingUnits * c" by linarith
      with pos show ?thesis by simp
    qed
    have val: "?calc = Some (if c * minSpace > 50 then 50 / minSpace else c)"
      unfolding calcHorizontalSpacing_def ratio Let_def c_def using go pos by auto
    from eq uniq val show ?thesis by blast
  qed
  from stop solve show ?thesis by blast
qed

theorem calcHorizontalSpacing_stop_or_solve_witness:
  "(0::real) < 100 \<and> (0::real) \<le> 10
   \<and> calcHorizontalSpacing False False 100 80 2 10 1 \<noteq> None
   \<and> (\<exists>c. (80 - 10 * 2) + 10 * c = (100::real)
          \<and> calcHorizontalSpacing False False 100 80 2 10 1
             = Some (if c * 1 > 50 then 50 / 1 else c))
   \<and> calcHorizontalSpacing True False 100 50 2 10 1 = None
   \<and> calcHorizontalSpacing False False 100 99 2 10 1 = None
   \<and> calcHorizontalSpacing False False 100 80 2 0 1 = None"
proof -
  have t: "(0::real) < 100" and u: "(0::real) \<le> 10" and z: "(0::real) \<le> 0" by simp_all
  show ?thesis
    using calcHorizontalSpacing_stop_or_solve
      [OF t u, where isLastLine = False and stretchLast = False and lineWidth = 80
        and spacing = 2 and minSpace = 1]
      calcHorizontalSpacing_stop_or_solve
      [OF t u, where isLastLine = True and stretchLast = False and lineWidth = 50
        and spacing = 2 and minSpace = 1]
      calcHorizontalSpacing_stop_or_solve
      [OF t u, where isLastLine = False and stretchLast = False and lineWidth = 99
        and spacing = 2 and minSpace = 1]
      calcHorizontalSpacing_stop_or_solve
      [OF t z, where isLastLine = False and stretchLast = False and lineWidth = 80
        and spacing = 2 and minSpace = 1]
    by auto
qed

section \<open>Properties of the selection history\<close>

lemma popItems_append:
  "popItems (length ys) (xs @ ys) = (map Some (rev ys), xs)"
proof (induction ys arbitrary: xs rule: rev_induct)
  case Nil
  show ?case by simp
next
  case (snoc z zs)
  have "pop (xs @ zs @ [z]) = (Some z, xs @ zs)"
    by (simp add: pop_def butlast_append)
  with snoc show ?case by simp
qed

lemma popItems_take_drop:
  assumes "n \<le> length hist"
  shows "popItems n hist
         = (map Some (rev (drop (length hist - n) hist)), take (length hist - n) hist)"
proof -
  let ?k = "length hist - n"
  have "popItems (length (drop ?k hist)) (take ?k hist @ drop ?k hist)
        = (map Some (rev (drop ?k hist)), take ?k hist)"
    by (rule popItems_append)
  with assms show ?thesis by simp
qed

lemma getDims_Some:
  "getDims (map Some es)
   = Inr (map (\<lambda>e. (fst (getDim e), boxOf e)) es, map svgEl (filter (\<lambda>e. dim e = None) es))"
  by (induction es) (auto simp add: boxOf_def getDim_def Let_def split: option.splits)

lemma growDim_sel:
  "dim_left (growDim a b) = min (dim_left a) (dim_left b)"
  "dim_top (growDim a b) = min (dim_top a) (dim_top b)"
  "dim_right (growDim a b) = max (dim_right a) (dim_right b)"
  "dim_bottom (growDim a b) = max (dim_bottom a) (dim_bottom b)"
  by (simp_all add: growDim_def)

lemma Min_insert_min:
  fixes a b :: real
  assumes "finite S"
  shows "Min (insert (min a b) S) = Min (insert a (insert b S))"
  using assms by (cases "S = {}") (simp_all add: min.assoc)

lemma Max_insert_max:
  fixes a b :: real
  assumes "finite S"
  shows "Max (insert (max a b) S) = Max (insert a (insert b S))"
  using assms by (cases "S = {}") (simp_all add: max.assoc)

lemma foldl_growDim:
  "dim_left (foldl growDim d0 ds) = Min (dim_left ` set (d0 # ds))
   \<and> dim_top (foldl growDim d0 ds) = Min (dim_top ` set (d0 # ds))
   \<and> dim_right (foldl growDim d0 ds) = Max (dim_right ` set (d0 # ds))
   \<and> dim_bottom (foldl growDim d0 ds) = Max (dim_bottom ` set (d0 # ds))"
proof (induction ds arbitrary: d0)
  case Nil
  show ?case by simp
next
  case (Cons d ds)
  have step: "foldl growDim d0 (d # ds) = foldl growDim (growDim d0 d) ds"
    by simp
  show ?case
    unfolding step
    by (simp add: Cons growDim_sel Min_insert_min Max_insert_max del: Min_insert Max_insert)
qed

text \<open>
  C10. With a count below 2, \<open>combineHistory\<close> returns at once: the history list is the one
  it was given, no bounding box is asked for, and the result does not depend on the
  replacement element.
\<close>

theorem combineHistory_short_count:
  "len < 2 \<Longrightarrow> combineHistory len svgEl' hist = Inr (hist, [])"
  by (simp add: combineHistory_def)

theorem combineHistory_short_count_witness:
  "(1::int) < 2
   \<and> combineHistory 1 \<lparr>node = 9, getBBox = \<lparr>rect_x = 0, rect_y = 0, rect_width = 1, rect_height = 1\<rparr>\<rparr>
         [\<lparr>absEl = (1::nat),
           svgEl = \<lparr>node = 1, getBBox = \<lparr>rect_x = 0, rect_y = 0, rect_width = 10, rect_height = 10\<rparr>\<rparr>,
           selectable = True, isDraggable = True, dim = None\<rparr>]
       = Inr ([\<lparr>absEl = (1::nat),
           svgEl = \<lparr>node = 1, getBBox = \<lparr>rect_x = 0, rect_y = 0, rect_width = 10, rect_height = 10\<rparr>\<rparr>,
           selectable = True, isDraggable = True, dim = None\<rparr>], [])"
proof -
  have small: "(1::int) < 2" by simp
  show ?thesis
    using small combineHistory_short_count [OF small] by simp
qed

lemma getDim_fst_update:
  "(fst (getDim e))\<lparr>dim := X\<rparr> = e\<lparr>dim := X\<rparr>"
  by (simp add: getDim_def Let_def split: option.splits)

lemma foldl_growDim_record:
  "foldl growDim d0 ds
   = \<lparr>dim_left = Min (dim_left ` set (d0 # ds)), dim_top = Min (dim_top ` set (d0 # ds)),
      dim_right = Max (dim_right ` set (d0 # ds)), dim_bottom = Max (dim_bottom ` set (d0 # ds))\<rparr>"
  by (rule dim.equality) (simp_all add: foldl_growDim del: set_simps list.set)

text \<open>
  C5. On a history of at least \<open>n \<ge> 2\<close> entries, \<open>combineHistory n svgEl'\<close> keeps the entries
  before the last \<open>n\<close> and appends one entry: the last entry of the old history, with the
  replacement as its SVG element and as its box the union of the boxes of the \<open>n\<close> removed
  entries (the least left and top, the greatest right and bottom). \<open>getBBox()\<close> is called
  once for each removed entry that had no cached box and for no other, so no box is
  computed twice. The list is shorter by \<open>n - 1\<close>.
\<close>

theorem combineHistory_union:
  assumes n: "2 \<le> n" and len: "nat n \<le> length hist"
  shows "combineHistory n svgEl' hist
         = Inr (take (length hist - nat n) hist
                  @ [(last hist)\<lparr>dim := Some
                        \<lparr>dim_left = Min (dim_left ` boxOf ` set (drop (length hist - nat n) hist)),
                         dim_top = Min (dim_top ` boxOf ` set (drop (length hist - nat n) hist)),
                         dim_right = Max (dim_right ` boxOf ` set (drop (length hist - nat n) hist)),
                         dim_bottom = Max (dim_bottom ` boxOf ` set (drop (length hist - nat n) hist))\<rparr>,
                       svgEl := svgEl'\<rparr>],
                map svgEl (filter (\<lambda>e. dim e = None) (rev (drop (length hist - nat n) hist))))
         \<and> length (take (length hist - nat n) hist @ [last hist]) = length hist - (nat n - 1)"
proof -
  let ?k = "length hist - nat n"
  let ?removed = "drop ?k hist"
  let ?pair = "\<lambda>e. (fst (getDim e), boxOf e)"
  from n len have ne: "?removed \<noteq> []" and hne: "hist \<noteq> []" by auto
  then obtain r0 rs where rev_removed: "rev ?removed = r0 # rs"
    by (cases "rev ?removed") auto
  have "r0 = last ?removed"
    using rev_removed by (metis last_rev list.sel(1) rev_rev_ident hd_rev)
  with ne have r0: "r0 = last hist" by simp
  have pops: "popItems (nat n) hist = (map Some (r0 # rs), take ?k hist)"
    using popItems_take_drop [OF len] by (simp only: rev_removed)
  have dims: "getDims (map Some (r0 # rs))
              = Inr (?pair r0 # map ?pair rs, map svgEl (filter (\<lambda>e. dim e = None) (rev ?removed)))"
    using getDims_Some [of "r0 # rs"] by (simp only: rev_removed list.map)
  have "set (boxOf r0 # map snd (map ?pair rs)) = boxOf ` set (rev ?removed)"
    by (simp only: rev_removed) (simp add: o_def)
  then have sets: "set (boxOf r0 # map snd (map ?pair rs)) = boxOf ` set ?removed"
    by (simp only: set_rev)
  have box: "foldl growDim (boxOf r0) (map snd (map ?pair rs))
             = \<lparr>dim_left = Min (dim_left ` boxOf ` set ?removed),
                dim_top = Min (dim_top ` boxOf ` set ?removed),
                dim_right = Max (dim_right ` boxOf ` set ?removed),
                dim_bottom = Max (dim_bottom ` boxOf ` set ?removed)\<rparr>"
    by (simp only: foldl_growDim_record sets)
  have result: "combineHistory n svgEl' hist
        = Inr (take ?k hist @ [(fst (getDim r0))\<lparr>dim := Some (foldl growDim (boxOf r0) (map snd (map ?pair rs))),
                                svgEl := svgEl'\<rparr>],
               map svgEl (filter (\<lambda>e. dim e = None) (rev ?removed)))"
    using n by (simp add: combineHistory_def pops dims del: getDims.simps list.map)
  have count: "length (take ?k hist @ [last hist]) = length hist - (nat n - 1)"
    using n len by simp
  from result count show ?thesis
    by (simp only: getDim_fst_update r0 box [unfolded r0])
qed

theorem combineHistory_union_witness:
  "(2::int) \<le> 2
   \<and> combineHistory 2 \<lparr>node = 9, getBBox = \<lparr>rect_x = 0, rect_y = 0, rect_width = 1, rect_height = 1\<rparr>\<rparr>
         [\<lparr>absEl = (1::nat),
           svgEl = \<lparr>node = 1, getBBox = \<lparr>rect_x = 0, rect_y = 0, rect_width = 10, rect_height = 10\<rparr>\<rparr>,
           selectable = True, isDraggable = True, dim = None\<rparr>,
          \<lparr>absEl = 2,
           svgEl = \<lparr>node = 2, getBBox = \<lparr>rect_x = 0, rect_y = 0, rect_width = 10, rect_height = 10\<rparr>\<rparr>,
           selectable = True, isDraggable = False,
           dim = Some \<lparr>dim_left = 20, dim_top = 1, dim_right = 30, dim_bottom = 5\<rparr>\<rparr>,
          \<lparr>absEl = 3,
           svgEl = \<lparr>node = 3, getBBox = \<lparr>rect_x = 24.5, rect_y = 2.4, rect_width = 10, rect_height = 10\<rparr>\<rparr>,
           selectable = False, isDraggable = True, dim = None\<rparr>]
       = Inr ([\<lparr>absEl = (1::nat),
           svgEl = \<lparr>node = 1, getBBox = \<lparr>rect_x = 0, rect_y = 0, rect_width = 10, rect_height = 10\<rparr>\<rparr>,
           selectable = True, isDraggable = True, dim = None\<rparr>,
          \<lparr>absEl = 3,
           svgEl = \<lparr>node = 9, getBBox = \<lparr>rect_x = 0, rect_y = 0, rect_width = 1, rect_height = 1\<rparr>\<rparr>,
           selectable = False, isDraggable = True,
           dim = Some \<lparr>dim_left = 20, dim_top = 1, dim_right = 35, dim_bottom = 12\<rparr>\<rparr>],
          [\<lparr>node = 3, getBBox = \<lparr>rect_x = 24.5, rect_y = 2.4, rect_width = 10, rect_height = 10\<rparr>\<rparr>])"
proof -
  have two: "(2::int) \<le> 2" by simp
  show ?thesis
    using combineHistory_union [OF two, where svgEl' = "\<lparr>node = 9, getBBox = \<lparr>rect_x = 0, rect_y = 0, rect_width = 1, rect_height = 1\<rparr>\<rparr>"
       and hist = "[\<lparr>absEl = (1::nat),
           svgEl = \<lparr>node = 1, getBBox = \<lparr>rect_x = 0, rect_y = 0, rect_width = 10, rect_height = 10\<rparr>\<rparr>,
           selectable = True, isDraggable = True, dim = None\<rparr>,
          \<lparr>absEl = 2,
           svgEl = \<lparr>node = 2, getBBox = \<lparr>rect_x = 0, rect_y = 0, rect_width = 10, rect_height = 10\<rparr>\<rparr>,
           selectable = True, isDraggable = False,
           dim = Some \<lparr>dim_left = 20, dim_top = 1, dim_right = 30, dim_bottom = 5\<rparr>\<rparr>,
          \<lparr>absEl = 3,
           svgEl = \<lparr>node = 3, getBBox = \<lparr>rect_x = 24.5, rect_y = 2.4, rect_width = 10, rect_height = 10\<rparr>\<rparr>,
           selectable = False, isDraggable = True, dim = None\<rparr>]"]
    by (simp add: boxOf_def getDim_def roundedBox_def Math_round_def Let_def)
qed


section \<open>Properties of the hit test\<close>

lemma distanceTo_nonneg: "0 \<le> distanceTo x y e"
  by (simp add: distanceTo_def cornerDistance_def)

lemma loop_stop:
  "\<not> (i < length hist \<and> 0 < m) \<Longrightarrow> mouseDown_loop x y i hist m c = (hist, m, c)"
  by (subst mouseDown_loop.simps, rule if_not_P)

lemma loop_unfold:
  assumes "i < length hist" and "0 < m"
  shows "mouseDown_loop x y i hist m c =
     (if \<not> selectable (hist ! i) then mouseDown_loop x y (i + 1) hist m c
      else if inside x y (boxOf (hist ! i))
      then mouseDown_loop x y (i + 1) (hist[i := fst (getDim (hist ! i))]) 0 (int i)
      else if cornerDistance x y (boxOf (hist ! i)) < m
      then mouseDown_loop x y (i + 1) (hist[i := fst (getDim (hist ! i))])
             (cornerDistance x y (boxOf (hist ! i))) (int i)
      else mouseDown_loop x y (i + 1) (hist[i := fst (getDim (hist ! i))]) m c)"
proof -
  let ?d = "boxOf (hist ! i)"
  have dx: "(if \<bar>x - dim_left ?d\<bar> > \<bar>x - dim_right ?d\<bar> then \<bar>x - dim_right ?d\<bar> else \<bar>x - dim_left ?d\<bar>)
            = min \<bar>x - dim_left ?d\<bar> \<bar>x - dim_right ?d\<bar>"
    by (simp add: min_def)
  have dy: "(if \<bar>y - dim_top ?d\<bar> > \<bar>y - dim_bottom ?d\<bar> then \<bar>y - dim_bottom ?d\<bar> else \<bar>y - dim_top ?d\<bar>)
            = min \<bar>y - dim_top ?d\<bar> \<bar>y - dim_bottom ?d\<bar>"
    by (simp add: min_def)
  have hit: "(dim_left ?d < x \<and> dim_right ?d > x \<and> dim_top ?d < y \<and> dim_bottom ?d > y)
             = inside x y ?d"
    by (simp only: inside_def)
  have hyp: "sqrt (min \<bar>x - dim_left ?d\<bar> \<bar>x - dim_right ?d\<bar> * min \<bar>x - dim_left ?d\<bar> \<bar>x - dim_right ?d\<bar>
                   + min \<bar>y - dim_top ?d\<bar> \<bar>y - dim_bottom ?d\<bar> * min \<bar>y - dim_top ?d\<bar> \<bar>y - dim_bottom ?d\<bar>)
             = cornerDistance x y ?d"
    by (simp only: cornerDistance_def power2_eq_square)
  have cond: "(i < length hist \<and> 0 < m) = True"
    using assms by simp
  show ?thesis
    by (subst mouseDown_loop.simps)
      (simp only: cond if_True Let_def boxOf_def [symmetric] dx dy hit hyp)
qed

lemma loop_step:
  assumes "i < length hist" and "0 < m"
  shows "mouseDown_loop x y i hist m c =
     (if selectable (hist ! i)
      then mouseDown_loop x y (i + 1) (hist[i := fst (getDim (hist ! i))])
             (if distanceTo x y (hist ! i) < m then distanceTo x y (hist ! i) else m)
             (if distanceTo x y (hist ! i) < m then int i else c)
      else mouseDown_loop x y (i + 1) hist m c)"
proof (cases "inside x y (boxOf (hist ! i))")
  case True
  then have "distanceTo x y (hist ! i) = 0" by (simp add: distanceTo_def)
  with True assms(2) show ?thesis
    by (simp only: loop_unfold [OF assms] if_True if_False split: if_splits) simp
next
  case False
  then have "distanceTo x y (hist ! i) = cornerDistance x y (boxOf (hist ! i))"
    by (simp add: distanceTo_def)
  with False show ?thesis
    by (simp only: loop_unfold [OF assms] if_True if_False split: if_splits) simp
qed

lemma best_nonpos: "m \<le> 0 \<Longrightarrow> best x y i es m c = (m, c)"
proof (induction es arbitrary: i)
  case Nil
  show ?case by simp
next
  case (Cons e es)
  have "\<not> distanceTo x y e < m"
    using Cons.prems distanceTo_nonneg [of x y e] by linarith
  with Cons show ?case by simp
qed


lemma loop_best:
  "snd (mouseDown_loop x y i hist m c) = best x y i (drop i hist) m c"
proof (induction "length hist - i" arbitrary: i hist m c)
  case 0
  then have "\<not> (i < length hist \<and> 0 < m)" and "drop i hist = []" by simp_all
  then show ?case by (simp add: loop_stop)
next
  case (Suc n)
  then have i: "i < length hist" by simp
  have dr: "drop i hist = hist ! i # drop (i + 1) hist"
    using i by (simp add: Cons_nth_drop_Suc)
  show ?case
  proof (cases "0 < m")
    case False
    then show ?thesis by (simp add: loop_stop best_nonpos)
  next
    case True
    let ?h1 = "hist[i := fst (getDim (hist ! i))]"
    have n1: "n = length ?h1 - (i + 1)" and n0: "n = length hist - (i + 1)"
      using Suc.hyps(2) by simp_all
    have d1: "drop (i + 1) ?h1 = drop (i + 1) hist"
      by simp
    show ?thesis
      using Suc.hyps(1) [OF n1] Suc.hyps(1) [OF n0]
      by (simp only: loop_step [OF i True] dr best.simps d1 split: if_splits) simp
  qed
qed

lemma loop_hist:
  "length (fst (mouseDown_loop x y i hist m c)) = length hist
   \<and> (\<forall>k<i. fst (mouseDown_loop x y i hist m c) ! k = hist ! k)"
proof (induction "length hist - i" arbitrary: i hist m c)
  case 0
  then have "\<not> (i < length hist \<and> 0 < m)" by simp
  then show ?case by (simp add: loop_stop)
next
  case (Suc n)
  then have i: "i < length hist" by simp
  show ?case
  proof (cases "0 < m")
    case False
    then show ?thesis by (simp add: loop_stop)
  next
    case True
    let ?h1 = "hist[i := fst (getDim (hist ! i))]"
    have n1: "n = length ?h1 - (i + 1)" and n0: "n = length hist - (i + 1)"
      using Suc.hyps(2) by simp_all
    show ?thesis
      using Suc.hyps(1) [OF n1] Suc.hyps(1) [OF n0]
      by (auto simp add: loop_step [OF i True])
  qed
qed

lemma loop_target:
  assumes "snd (snd (mouseDown_loop x y i hist m c)) \<noteq> c"
  shows "\<exists>k. snd (snd (mouseDown_loop x y i hist m c)) = int k \<and> i \<le> k \<and> k < length hist
             \<and> fst (mouseDown_loop x y i hist m c) ! k = fst (getDim (hist ! k))"
  using assms
proof (induction "length hist - i" arbitrary: i hist m c)
  case 0
  then have "\<not> (i < length hist \<and> 0 < m)" by simp
  with 0 show ?case by (simp add: loop_stop)
next
  case (Suc n)
  then have i: "i < length hist" by simp
  show ?case
  proof (cases "0 < m")
    case False
    with Suc.prems show ?thesis by (simp add: loop_stop)
  next
    case True
    let ?h1 = "hist[i := fst (getDim (hist ! i))]"
    let ?e = "hist ! i"
    have n1: "n = length ?h1 - (i + 1)" and n0: "n = length hist - (i + 1)"
      using Suc.hyps(2) by simp_all
    show ?thesis
    proof (cases "selectable ?e")
      case False
      then have eq: "mouseDown_loop x y i hist m c = mouseDown_loop x y (i + 1) hist m c"
        by (simp add: loop_step [OF i True])
      from Suc.prems have "snd (snd (mouseDown_loop x y (i + 1) hist m c)) \<noteq> c"
        unfolding eq by assumption
      from Suc.hyps(1) [OF n0 this] show ?thesis
        by (simp only: eq) auto
    next
      case sel: True
      let ?m1 = "if distanceTo x y ?e < m then distanceTo x y ?e else m"
      let ?c1 = "if distanceTo x y ?e < m then int i else c"
      have eq: "mouseDown_loop x y i hist m c = mouseDown_loop x y (i + 1) ?h1 ?m1 ?c1"
        using sel by (simp only: loop_step [OF i True] if_True)
      let ?r = "mouseDown_loop x y (i + 1) ?h1 ?m1 ?c1"
      show ?thesis
      proof (cases "snd (snd ?r) = ?c1")
        case False
        from Suc.hyps(1) [OF n1 False] obtain k where
          k: "snd (snd ?r) = int k" "i + 1 \<le> k" "k < length ?h1"
             "fst ?r ! k = fst (getDim (?h1 ! k))"
          by blast
        then have "?h1 ! k = hist ! k" by simp
        with k show ?thesis by (simp only: eq) auto
      next
        case same: True
        with Suc.prems have upd: "distanceTo x y ?e < m" and res: "snd (snd ?r) = int i"
          by (auto simp only: eq split: if_splits)
        have "fst ?r ! i = ?h1 ! i"
          using loop_hist [of x y "i + 1" ?h1 ?m1 ?c1] by simp
        then have "fst ?r ! i = fst (getDim ?e)"
          using i by simp
        with res i show ?thesis by (simp only: eq) auto
      qed
    qed
  qed
qed


lemma best_char:
  "if \<forall>e\<in>set es. selectable e \<longrightarrow> m \<le> distanceTo x y e
   then best x y i es m c = (m, c)
   else \<exists>pre e post. es = pre @ e # post
          \<and> best x y i es m c = (distanceTo x y e, int (i + length pre))
          \<and> selectable e \<and> distanceTo x y e < m
          \<and> (\<forall>p\<in>set pre. selectable p \<longrightarrow> distanceTo x y e < distanceTo x y p)
          \<and> (\<forall>q\<in>set post. selectable q \<longrightarrow> distanceTo x y e \<le> distanceTo x y q)"
proof (induction es arbitrary: i m c)
  case Nil
  show ?case by simp
next
  case (Cons e0 es)
  let ?D = "distanceTo x y"
  show ?case
  proof (cases "selectable e0 \<and> ?D e0 < m")
    case A: True
    then have unfold: "best x y i (e0 # es) m c = best x y (i + 1) es (?D e0) (int i)"
      by simp
    have outer: "\<not> (\<forall>e\<in>set (e0 # es). selectable e \<longrightarrow> m \<le> ?D e)"
      using A by auto
    show ?thesis
    proof (cases "\<forall>e\<in>set es. selectable e \<longrightarrow> ?D e0 \<le> ?D e")
      case True
      with Cons.IH [of "?D e0" "i + 1" "int i"]
      have "best x y (i + 1) es (?D e0) (int i) = (?D e0, int i)" by simp
      with A True unfold have
        "e0 # es = [] @ e0 # es
          \<and> best x y i (e0 # es) m c = (?D e0, int (i + length ([] :: 'a historyEl list)))
          \<and> selectable e0 \<and> ?D e0 < m
          \<and> (\<forall>p\<in>set ([] :: 'a historyEl list). selectable p \<longrightarrow> ?D e0 < ?D p)
          \<and> (\<forall>q\<in>set es. selectable q \<longrightarrow> ?D e0 \<le> ?D q)"
        by simp
      then have "\<exists>pre e post. e0 # es = pre @ e # post
          \<and> best x y i (e0 # es) m c = (?D e, int (i + length pre))
          \<and> selectable e \<and> ?D e < m
          \<and> (\<forall>p\<in>set pre. selectable p \<longrightarrow> ?D e < ?D p)
          \<and> (\<forall>q\<in>set post. selectable q \<longrightarrow> ?D e \<le> ?D q)"
        by blast
      with outer show ?thesis by (simp only: if_False)
    next
      case False
      with Cons.IH [of "?D e0" "i + 1" "int i"]
      obtain pre e post where d: "es = pre @ e # post"
          "best x y (i + 1) es (?D e0) (int i) = (?D e, int (i + 1 + length pre))"
          "selectable e" "?D e < ?D e0"
          "\<forall>p\<in>set pre. selectable p \<longrightarrow> ?D e < ?D p"
          "\<forall>q\<in>set post. selectable q \<longrightarrow> ?D e \<le> ?D q"
        by (auto simp only: if_False)
      from d A unfold have
        "e0 # es = (e0 # pre) @ e # post
          \<and> best x y i (e0 # es) m c = (?D e, int (i + length (e0 # pre)))
          \<and> selectable e \<and> ?D e < m
          \<and> (\<forall>p\<in>set (e0 # pre). selectable p \<longrightarrow> ?D e < ?D p)
          \<and> (\<forall>q\<in>set post. selectable q \<longrightarrow> ?D e \<le> ?D q)"
        by simp
      then have "\<exists>pre e post. e0 # es = pre @ e # post
          \<and> best x y i (e0 # es) m c = (?D e, int (i + length pre))
          \<and> selectable e \<and> ?D e < m
          \<and> (\<forall>p\<in>set pre. selectable p \<longrightarrow> ?D e < ?D p)
          \<and> (\<forall>q\<in>set post. selectable q \<longrightarrow> ?D e \<le> ?D q)"
        by blast
      with outer show ?thesis by (simp only: if_False)
    qed
  next
    case B: False
    then have unfold: "best x y i (e0 # es) m c = best x y (i + 1) es m c"
      by auto
    from B have e0: "selectable e0 \<longrightarrow> m \<le> ?D e0" by auto
    show ?thesis
    proof (cases "\<forall>e\<in>set es. selectable e \<longrightarrow> m \<le> ?D e")
      case True
      with Cons.IH [of m "i + 1" c] have "best x y (i + 1) es m c = (m, c)" by simp
      with True e0 unfold show ?thesis by simp
    next
      case False
      then have outer: "\<not> (\<forall>e\<in>set (e0 # es). selectable e \<longrightarrow> m \<le> ?D e)"
        by auto
      from False Cons.IH [of m "i + 1" c]
      obtain pre e post where d: "es = pre @ e # post"
          "best x y (i + 1) es m c = (?D e, int (i + 1 + length pre))"
          "selectable e" "?D e < m"
          "\<forall>p\<in>set pre. selectable p \<longrightarrow> ?D e < ?D p"
          "\<forall>q\<in>set post. selectable q \<longrightarrow> ?D e \<le> ?D q"
        by (auto simp only: if_False)
      from d e0 unfold have
        "e0 # es = (e0 # pre) @ e # post
          \<and> best x y i (e0 # es) m c = (?D e, int (i + length (e0 # pre)))
          \<and> selectable e \<and> ?D e < m
          \<and> (\<forall>p\<in>set (e0 # pre). selectable p \<longrightarrow> ?D e < ?D p)
          \<and> (\<forall>q\<in>set post. selectable q \<longrightarrow> ?D e \<le> ?D q)"
        by auto
      then have "\<exists>pre e post. e0 # es = pre @ e # post
          \<and> best x y i (e0 # es) m c = (?D e, int (i + length pre))
          \<and> selectable e \<and> ?D e < m
          \<and> (\<forall>p\<in>set pre. selectable p \<longrightarrow> ?D e < ?D p)
          \<and> (\<forall>q\<in>set post. selectable q \<longrightarrow> ?D e \<le> ?D q)"
        by blast
      with outer show ?thesis by (simp only: if_False)
    qed
  qed
qed


lemma mouseDown_dragTarget:
  "dragTarget (mouseDown x y this) =
     (if snd (snd (mouseDown_loop x y 0 (history this) 9999999 (- 1))) \<ge> 0
      then js_index (fst (mouseDown_loop x y 0 (history this) 9999999 (- 1)))
             (snd (snd (mouseDown_loop x y 0 (history this) 9999999 (- 1))))
      else dragTarget this)"
  by (simp add: mouseDown_def Let_def split: prod.splits)

lemma mouseDown_none:
  assumes "\<forall>e\<in>set (history this). selectable e \<longrightarrow> 9999999 \<le> distanceTo x y e"
  shows "dragTarget (mouseDown x y this) = dragTarget this"
proof -
  have "best x y 0 (history this) 9999999 (- 1) = (9999999, - 1)"
    using assms best_char [of "history this" 9999999 x y 0 "- 1"] by simp
  then have "snd (snd (mouseDown_loop x y 0 (history this) 9999999 (- 1))) = - 1"
    using loop_best [of x y 0 "history this" 9999999 "- 1"] by simp
  then show ?thesis by (simp add: mouseDown_dragTarget)
qed

lemma mouseDown_some:
  assumes "\<exists>e\<in>set (history this). selectable e \<and> distanceTo x y e < 9999999"
  shows "\<exists>k<length (history this).
           dragTarget (mouseDown x y this) = Some (fst (getDim (history this ! k)))
           \<and> selectable (history this ! k)
           \<and> distanceTo x y (history this ! k) < 9999999
           \<and> (\<forall>j<length (history this). selectable (history this ! j)
                  \<longrightarrow> distanceTo x y (history this ! k) \<le> distanceTo x y (history this ! j))
           \<and> (\<forall>j<k. selectable (history this ! j)
                  \<longrightarrow> distanceTo x y (history this ! k) < distanceTo x y (history this ! j))"
proof -
  let ?H = "history this"
  let ?D = "distanceTo x y"
  let ?r = "mouseDown_loop x y 0 ?H 9999999 (- 1)"
  from assms have nn: "\<not> (\<forall>e\<in>set ?H. selectable e \<longrightarrow> 9999999 \<le> ?D e)"
    by (meson not_le)
  have "\<exists>pre e post. ?H = pre @ e # post
          \<and> best x y 0 ?H 9999999 (- 1) = (?D e, int (0 + length pre))
          \<and> selectable e \<and> ?D e < 9999999
          \<and> (\<forall>p\<in>set pre. selectable p \<longrightarrow> ?D e < ?D p)
          \<and> (\<forall>q\<in>set post. selectable q \<longrightarrow> ?D e \<le> ?D q)"
    using best_char [of ?H 9999999 x y 0 "- 1"] by (simp only: nn if_False)
  then obtain pre e post where d: "?H = pre @ e # post"
      "best x y 0 ?H 9999999 (- 1) = (?D e, int (0 + length pre))"
      "selectable e" "?D e < 9999999"
      "\<forall>p\<in>set pre. selectable p \<longrightarrow> ?D e < ?D p"
      "\<forall>q\<in>set post. selectable q \<longrightarrow> ?D e \<le> ?D q"
    by blast
  let ?k = "length pre"
  have k: "?k < length ?H" and ek: "?H ! ?k = e"
    by (simp_all add: d(1))
  have c: "snd (snd ?r) = int ?k"
    using loop_best [of x y 0 ?H 9999999 "- 1"] d(2) by simp
  then have "snd (snd ?r) \<noteq> - 1" by simp
  from loop_target [OF this] c have entry: "fst ?r ! ?k = fst (getDim (?H ! ?k))"
    by auto
  have len: "length (fst ?r) = length ?H"
    using loop_hist [of x y 0 ?H 9999999 "- 1"] by simp
  have target: "dragTarget (mouseDown x y this) = Some (fst (getDim (?H ! ?k)))"
    using c k len entry by (simp add: mouseDown_dragTarget js_index_def)
  have least: "?D e \<le> ?D (?H ! j)" if "j < length ?H" "selectable (?H ! j)" for j
  proof -
    from that(1) have "?H ! j \<in> set pre \<union> {e} \<union> set post"
      using nth_mem [of j ?H] by (simp only: d(1)) auto
    with that(2) d(5,6) show ?thesis by auto
  qed
  have first: "?D e < ?D (?H ! j)" if "j < ?k" "selectable (?H ! j)" for j
  proof -
    from that(1) have "?H ! j = pre ! j" by (simp add: d(1) nth_append)
    with that d(5) show ?thesis by (metis nth_mem)
  qed
  from k target d(3,4) least first show ?thesis
    unfolding ek [symmetric] by blast
qed


lemma mouseDown_direct_hit:
  assumes k: "k < length (history this)" and sel: "selectable (history this ! k)"
    and hit: "inside x y (boxOf (history this ! k))"
    and before: "\<forall>j<k. selectable (history this ! j) \<longrightarrow> distanceTo x y (history this ! j) \<noteq> 0"
  shows "dragTarget (mouseDown x y this) = Some (fst (getDim (history this ! k)))"
proof -
  let ?H = "history this"
  let ?D = "distanceTo x y"
  from hit have zero: "?D (?H ! k) = 0" by (simp add: distanceTo_def)
  with k sel have "\<exists>e\<in>set ?H. selectable e \<and> ?D e < 9999999"
    by (intro bexI [of _ "?H ! k"]) simp_all
  from mouseDown_some [OF this] obtain k' where k': "k' < length ?H"
      "dragTarget (mouseDown x y this) = Some (fst (getDim (?H ! k')))"
      "selectable (?H ! k')"
      "\<forall>j<length ?H. selectable (?H ! j) \<longrightarrow> ?D (?H ! k') \<le> ?D (?H ! j)"
      "\<forall>j<k'. selectable (?H ! j) \<longrightarrow> ?D (?H ! k') < ?D (?H ! j)"
    by blast
  from k'(4) k sel zero have "?D (?H ! k') \<le> 0" by auto
  with distanceTo_nonneg [of x y "?H ! k'"] have z': "?D (?H ! k') = 0" by simp
  have "\<not> k < k'"
    using k'(5) sel zero z' by auto
  moreover have "\<not> k' < k"
    using before k'(3) z' by auto
  ultimately have "k' = k" by simp
  with k'(2) show ?thesis by simp
qed

text \<open>The boxes and distances of the example entries.\<close>

lemma example_box:
  "boxOf (example_entry n sel 0 0) = \<lparr>dim_left = 0, dim_top = 0, dim_right = 10, dim_bottom = 10\<rparr>"
  "boxOf (example_entry n sel 20 0) = \<lparr>dim_left = 20, dim_top = 0, dim_right = 30, dim_bottom = 10\<rparr>"
  by (simp_all add: example_entry_def boxOf_def getDim_def roundedBox_def Math_round_def Let_def)

lemma example_distance:
  "distanceTo 13 0 (example_entry n sel 0 0) = 3"
  "distanceTo 13 0 (example_entry n sel 20 0) = 7"
proof -
  have "sqrt (3\<^sup>2) = (3::real)" "sqrt (7\<^sup>2) = (7::real)" by simp_all
  then show "distanceTo 13 0 (example_entry n sel 0 0) = 3"
    "distanceTo 13 0 (example_entry n sel 20 0) = 7"
    by (simp_all add: distanceTo_def inside_def cornerDistance_def example_box)
qed

text \<open>
  What the loop of \<open>mouseDown\<close> computes. Take as the distance of the pointer to an entry zero
  when the pointer is
  strictly inside the entry's box, and otherwise the hypotenuse of the smaller horizontal
  distance to the left or right edge and the smaller vertical distance to the top or bottom
  edge. When no selectable entry is nearer than 9999999 (so also when no entry is
  selectable), \<open>mouseDown\<close> selects nothing: the drag target stays as it was. Otherwise the
  drag target is the first selectable entry of least distance, with its box cached. So a
  selectable entry whose box strictly contains the pointer is the target when no
  selectable entry before it has distance zero (none contains the pointer or has a corner
  at it).
\<close>

theorem mouseDown_hit_test:
  "((\<forall>e\<in>set (history this). selectable e \<longrightarrow> 9999999 \<le> distanceTo x y e)
      \<longrightarrow> dragTarget (mouseDown x y this) = dragTarget this)
   \<and> ((\<exists>e\<in>set (history this). selectable e \<and> distanceTo x y e < 9999999)
      \<longrightarrow> (\<exists>k<length (history this).
             dragTarget (mouseDown x y this) = Some (fst (getDim (history this ! k)))
             \<and> selectable (history this ! k)
             \<and> distanceTo x y (history this ! k) < 9999999
             \<and> (\<forall>j<length (history this). selectable (history this ! j)
                    \<longrightarrow> distanceTo x y (history this ! k) \<le> distanceTo x y (history this ! j))
             \<and> (\<forall>j<k. selectable (history this ! j)
                    \<longrightarrow> distanceTo x y (history this ! k) < distanceTo x y (history this ! j))))
   \<and> (k < length (history this) \<and> selectable (history this ! k)
        \<and> inside x y (boxOf (history this ! k))
        \<and> (\<forall>j<k. selectable (history this ! j) \<longrightarrow> distanceTo x y (history this ! j) \<noteq> 0)
      \<longrightarrow> dragTarget (mouseDown x y this) = Some (fst (getDim (history this ! k))))"
  using mouseDown_none [of this x y] mouseDown_some [of this x y]
    mouseDown_direct_hit [of k this x y]
  by blast

theorem mouseDown_hit_test_witness:
  "dragTarget (mouseDown 5 5
      \<lparr>history = [example_entry 1 True 0 0],
       dragTarget = None, dragMechanism = None, dragMouseStart = (- 1, - 1)\<rparr>)
   = Some (fst (getDim (example_entry 1 True 0 0)))
   \<and> dragTarget (mouseDown 13 0
      \<lparr>history = [example_entry 1 False 0 0, example_entry 2 True 20 0, example_entry 3 True 0 0],
       dragTarget = None, dragMechanism = None, dragMouseStart = (- 1, - 1)\<rparr>)
   = Some (fst (getDim (example_entry 3 True 0 0)))
   \<and> dragTarget (mouseDown 13 0
      \<lparr>history = [example_entry 1 False 0 0],
       dragTarget = None, dragMechanism = None, dragMouseStart = (- 1, - 1)\<rparr>) = None"
proof -
  let ?h = "\<lparr>history = [example_entry 1 True 0 0],
       dragTarget = None, dragMechanism = None, dragMouseStart = (- 1, - 1)\<rparr>"
  let ?c = "\<lparr>history = [example_entry 1 False 0 0, example_entry 2 True 20 0, example_entry 3 True 0 0],
       dragTarget = None, dragMechanism = None, dragMouseStart = (- 1, - 1)\<rparr>"
  let ?e = "\<lparr>history = [example_entry 1 False 0 0],
       dragTarget = None :: nat historyEl option, dragMechanism = None, dragMouseStart = (- 1, - 1)\<rparr>"
  have sel: "selectable (example_entry n s x y) = s" for n s x y
    by (simp add: example_entry_def)
  from mouseDown_hit_test [of ?h 5 5 0]
  have hit: "dragTarget (mouseDown 5 5 ?h) = Some (fst (getDim (example_entry 1 True 0 0)))"
    by (simp add: sel inside_def example_box)
  have ex: "\<exists>e\<in>set (history ?c). selectable e \<and> distanceTo 13 0 e < 9999999"
    by (simp add: sel example_distance)
  from mouseDown_hit_test [of ?c 13 0 0] ex
  obtain k where k0: "k < length (history ?c)"
     and k2: "dragTarget (mouseDown 13 0 ?c) = Some (fst (getDim (history ?c ! k)))"
     and k3: "selectable (history ?c ! k)"
     and k4: "\<forall>j<length (history ?c). selectable (history ?c ! j)
             \<longrightarrow> distanceTo 13 0 (history ?c ! k) \<le> distanceTo 13 0 (history ?c ! j)"
    by blast
  from k0 have k1: "k < 3" by simp
  from k4 [rule_format, of 2]
  have near: "distanceTo 13 0 (history ?c ! k) \<le> distanceTo 13 0 (example_entry 3 True 0 0)"
    by (simp add: sel)
  from k1 consider "k = 0" | "k = 1" | "k = 2" by linarith
  then have "k = 2"
  proof cases
    case 1 with k3 show ?thesis by (simp add: sel)
  next
    case 2 with near show ?thesis by (simp add: example_distance)
  next
    case 3 then show ?thesis .
  qed
  with k2 have nearest: "dragTarget (mouseDown 13 0 ?c) = Some (fst (getDim (example_entry 3 True 0 0)))"
    by simp
  from mouseDown_hit_test [of ?e 13 0 0]
  have none: "dragTarget (mouseDown 13 0 ?e) = None"
    by (simp add: sel)
  from hit nearest none show ?thesis by simp
qed

lemma sqrt_facts:
  "sqrt 100 = 10" "(10::real) < sqrt 2504" "sqrt 2504 < 9999999" "0 < sqrt 2504"
proof -
  have "sqrt (10\<^sup>2) = (10::real)" by (simp del: power2_eq_square)
  then show "sqrt 100 = 10" by simp
  show "(10::real) < sqrt 2504" by (rule real_less_rsqrt) simp
  show "sqrt 2504 < 9999999" by (rule real_less_lsqrt) simp_all
  show "0 < sqrt 2504" by simp
qed

text \<open>
  C2. For a pointer that no box contains, the hit test is to return the selectable entry
  at the least distance from the pointer to its box, \<open>x\<close> clamped to left and right and \<open>y\<close> to
  top and bottom; the comment in \<open>mouseDown\<close> reads "figure out the distance to this
  element". The code takes, in each direction, the distance to the nearer edge even when
  the pointer lies between the two edges, which is the distance to the nearest corner.
  On two disjoint boxes, the first 100 by 10 at \<open>(0, 0)\<close> and the second 10 by 10 at
  \<open>(56, 20)\<close>, and the pointer \<open>(50, 12)\<close>, the first entry is at distance 2 and the second
  at distance 10, and \<open>mouseDown\<close> selects the second.
\<close>

theorem mouseDown_nearest_failing_input:
  "\<not> inside 50 12 (boxOf example_wide_entry)
   \<and> \<not> inside 50 12 (boxOf (example_entry 2 True 56 20))
   \<and> boxOf example_wide_entry = \<lparr>dim_left = 0, dim_top = 0, dim_right = 100, dim_bottom = 10\<rparr>
   \<and> boxOf (example_entry 2 True 56 20) = \<lparr>dim_left = 56, dim_top = 20, dim_right = 66, dim_bottom = 30\<rparr>
   \<and> clampedDistance 50 12 (boxOf example_wide_entry) = 2
   \<and> clampedDistance 50 12 (boxOf (example_entry 2 True 56 20)) = 10
   \<and> dragTarget (mouseDown 50 12
        \<lparr>history = [example_wide_entry, example_entry 2 True 56 20],
         dragTarget = None, dragMechanism = None, dragMouseStart = (- 1, - 1)\<rparr>)
     = Some ((example_entry 2 True 56 20)
              \<lparr>dim := Some \<lparr>dim_left = 56, dim_top = 20, dim_right = 66, dim_bottom = 30\<rparr>\<rparr>)"
proof -
  have boxes: "boxOf example_wide_entry = \<lparr>dim_left = 0, dim_top = 0, dim_right = 100, dim_bottom = 10\<rparr>"
    "boxOf (example_entry 2 True 56 20) = \<lparr>dim_left = 56, dim_top = 20, dim_right = 66, dim_bottom = 30\<rparr>"
    by (simp_all add: example_wide_entry_def example_entry_def boxOf_def getDim_def roundedBox_def
        Math_round_def Let_def)
  have out: "\<not> inside 50 12 (boxOf example_wide_entry)"
    "\<not> inside 50 12 (boxOf (example_entry 2 True 56 20))"
    by (simp_all add: boxes inside_def)
  have "sqrt (2\<^sup>2) = (2::real)" by simp
  then have cl: "clampedDistance 50 12 (boxOf example_wide_entry) = 2"
    "clampedDistance 50 12 (boxOf (example_entry 2 True 56 20)) = 10"
    by (simp_all add: boxes clampedDistance_def sqrt_facts)
  have run: "dragTarget (mouseDown 50 12
        \<lparr>history = [example_wide_entry, example_entry 2 True 56 20],
         dragTarget = None, dragMechanism = None, dragMouseStart = (- 1, - 1)\<rparr>)
     = Some ((example_entry 2 True 56 20)
              \<lparr>dim := Some \<lparr>dim_left = 56, dim_top = 20, dim_right = 66, dim_bottom = 30\<rparr>\<rparr>)"
    by (simp add: mouseDown_def mouseDown_loop.simps js_index_def getDim_def roundedBox_def
        Math_round_def Let_def example_wide_entry_def example_entry_def sqrt_facts)
  from boxes out cl run show ?thesis by simp
qed

section \<open>Properties of the triplet layout\<close>

lemma js_index_first: "js_index xs 0 = Some v \<longleftrightarrow> xs \<noteq> [] \<and> hd xs = v"
  by (cases xs) (simp_all add: js_index_def)

lemma js_index_last: "js_index xs (int (length xs) - 1) = Some v \<longleftrightarrow> xs \<noteq> [] \<and> last xs = v"
proof (cases "xs = []")
  case True
  then show ?thesis by (simp add: js_index_def)
next
  case False
  then have "nat (int (length xs) - 1) = length xs - 1" by simp
  with False show ?thesis
    by (simp add: js_index_def last_conv_nth)
qed

lemma layout_hasBeam_iff:
  "layout_hasBeam a1 a2 \<longleftrightarrow>
     (\<exists>b b2. beam (parent a1) = Some b \<and> beam (parent a2) = Some b2 \<and> beam_ref b = beam_ref b2
        \<and> elems b \<noteq> [] \<and> hd (elems b) = abs_ref (parent a1)
        \<and> last (elems b) = abs_ref (parent a2))"
  by (auto simp add: layout_hasBeam_def Let_def js_index_first js_index_last split: option.splits)

lemma layout_beamed_returns:
  assumes "layout_hasBeam a1 a2"
  shows "\<exists>b. beam (parent a1) = Some b \<and>
     layout_beamed a1 a2 this =
       Inr ((if isAbove b then (\<lambda>t. t\<lparr>endingHeightAbove := Some 4\<rparr>) else (\<lambda>t. t))
            (this\<lparr>yTextPos := Some (heightAtMidpoint b (if isAbove b then rel_x a1 + rel_w a1 else rel_x a1) (rel_x a2)
                                   + (if isAbove b then 3 else - 2)),
                  triplet_top := Some (heightAtMidpoint b (if isAbove b then rel_x a1 + rel_w a1 else rel_x a1) (rel_x a2)
                                   + (if isAbove b then 3 else - 2) + 1),
                  triplet_bottom := Some (heightAtMidpoint b (if isAbove b then rel_x a1 + rel_w a1 else rel_x a1) (rel_x a2)
                                   + (if isAbove b then 3 else - 2) - 2)\<rparr>))"
  using assms by (auto simp add: layout_hasBeam_iff layout_beamed_def Let_def)

lemma layout_bracket_returns:
  assumes "middleElems this = Some ms"
  shows "\<exists>this'. layout_bracket a1 a2 this = Inr this' \<and> hasBeam this' = hasBeam this"
  using assms by (simp add: layout_bracket_def Let_def)

text \<open>
  C7. For a triplet with both anchors (and its list of middle elements still in place, as
  it is until \<open>layout\<close> has run), \<open>layout\<close> returns and leaves \<open>hasBeam\<close> true exactly when
  both parents have a beam, it is the same beam, and that beam begins with the parent of
  the first anchor and ends with the parent of the second. So a shared beam of distinct
  members with a note before the first parent or after the second gives \<open>hasBeam\<close> false.
\<close>

theorem layout_sets_hasBeam:
  assumes a1: "anchor1 this = Some a1" and a2: "anchor2 this = Some a2"
    and ms: "middleElems this = Some ms"
  shows "\<exists>this'. layout this = Inr this'
     \<and> hasBeam this' = Some
          (\<exists>b b2. beam (parent a1) = Some b \<and> beam (parent a2) = Some b2 \<and> beam_ref b = beam_ref b2
             \<and> elems b \<noteq> [] \<and> hd (elems b) = abs_ref (parent a1)
             \<and> last (elems b) = abs_ref (parent a2))
     \<and> (\<forall>b pre mid post. beam (parent a1) = Some b \<and> distinct (elems b)
           \<and> elems b = pre @ [abs_ref (parent a1)] @ mid @ [abs_ref (parent a2)] @ post
           \<and> (pre \<noteq> [] \<or> post \<noteq> [])
          \<longrightarrow> hasBeam this' = Some False)"
proof (cases "layout_hasBeam a1 a2")
  case True
  from layout_beamed_returns [OF True, of "this\<lparr>hasBeam := Some True\<rparr>"]
  obtain this1 where r: "layout_beamed a1 a2 (this\<lparr>hasBeam := Some True\<rparr>) = Inr this1"
    and hb: "hasBeam this1 = Some True"
    by (auto split: if_splits)
  let ?this' = "this1\<lparr>middleElems := None, flatBeams := None\<rparr>"
  from True r a1 a2 have lay: "layout this = Inr ?this'"
    by (simp add: layout_def)
  have val: "hasBeam ?this' = Some True" using hb by simp
  from True obtain b where b: "beam (parent a1) = Some b" "elems b \<noteq> []"
      "hd (elems b) = abs_ref (parent a1)" "last (elems b) = abs_ref (parent a2)"
    by (auto simp add: layout_hasBeam_iff)
  have extra: False
    if "beam (parent a1) = Some b'" "distinct (elems b')"
      "elems b' = pre @ [abs_ref (parent a1)] @ mid @ [abs_ref (parent a2)] @ post"
      "pre \<noteq> [] \<or> post \<noteq> []" for b' pre mid post
  proof -
    from that(1) b(1) have bb: "b' = b" by simp
    from that(4) show False
    proof
      assume "pre \<noteq> []"
      then have "hd (elems b) = hd pre" "hd pre \<in> set pre"
        using that(3) by (simp_all add: bb)
      with b(3) that(2,3) show False by (auto simp add: bb)
    next
      assume "post \<noteq> []"
      then have "last (elems b) = last post" "last post \<in> set post"
        using that(3) by (simp_all add: bb)
      with b(4) that(2,3) show False by (auto simp add: bb)
    qed
  qed
  from True have cond: "(\<exists>b b2. beam (parent a1) = Some b \<and> beam (parent a2) = Some b2 \<and> beam_ref b = beam_ref b2
             \<and> elems b \<noteq> [] \<and> hd (elems b) = abs_ref (parent a1)
             \<and> last (elems b) = abs_ref (parent a2)) = True"
    by (simp only: layout_hasBeam_iff)
  from lay val extra show ?thesis
    unfolding cond by blast
next
  case False
  from layout_bracket_returns [of "this\<lparr>hasBeam := Some False\<rparr>" ms a1 a2] ms
  obtain this1 where r: "layout_bracket a1 a2 (this\<lparr>hasBeam := Some False\<rparr>) = Inr this1"
    and hb: "hasBeam this1 = Some False"
    by auto
  let ?this' = "this1\<lparr>middleElems := None, flatBeams := None\<rparr>"
  from False r a1 a2 have lay: "layout this = Inr ?this'"
    by (simp add: layout_def)
  have val: "hasBeam ?this' = Some False" using hb by simp
  from False have cond: "(\<exists>b b2. beam (parent a1) = Some b \<and> beam (parent a2) = Some b2 \<and> beam_ref b = beam_ref b2
             \<and> elems b \<noteq> [] \<and> hd (elems b) = abs_ref (parent a1)
             \<and> last (elems b) = abs_ref (parent a2)) = False"
    by (simp only: layout_hasBeam_iff)
  from lay val show ?thesis
    unfolding cond by blast
qed

theorem layout_sets_hasBeam_witness:
  "anchor1 (example_triplet (Some (example_anchor 1 5 ''note'' (Some example_beam) 100))
              (Some (example_anchor 3 6 ''note'' (Some example_beam) 160)) [\<lparr>mid_top = 6\<rparr>])
     = Some (example_anchor 1 5 ''note'' (Some example_beam) 100)
   \<and> (\<exists>this'. layout (example_triplet (Some (example_anchor 1 5 ''note'' (Some example_beam) 100))
              (Some (example_anchor 3 6 ''note'' (Some example_beam) 160)) [\<lparr>mid_top = 6\<rparr>]) = Inr this'
         \<and> hasBeam this' = Some True)"
  using layout_sets_hasBeam [where
      this = "example_triplet (Some (example_anchor 1 5 ''note'' (Some example_beam) 100))
              (Some (example_anchor 3 6 ''note'' (Some example_beam) 160)) [\<lparr>mid_top = 6\<rparr>]"
      and ?a1.0 = "example_anchor 1 5 ''note'' (Some example_beam) 100"
      and ?a2.0 = "example_anchor 3 6 ''note'' (Some example_beam) 160"
      and ms = "[\<lparr>mid_top = 6\<rparr>]"]
  by (simp add: example_triplet_def example_anchor_def example_beam_def, blast)

lemma layout_beamed_keeps:
  assumes "layout_beamed a1 a2 this = Inr this'"
  shows "anchor1 this' = anchor1 this \<and> anchor2 this' = anchor2 this \<and> number this' = number this
         \<and> hasBeam this' = hasBeam this"
  using assms by (cases "beam (parent a1)") (auto simp add: layout_beamed_def Let_def)

lemma layout_bracket_keeps:
  assumes "layout_bracket a1 a2 this = Inr this'"
  shows "anchor1 this' = anchor1 this \<and> anchor2 this' = anchor2 this \<and> number this' = number this
         \<and> hasBeam this' = hasBeam this"
  using assms by (cases "middleElems this") (auto simp add: layout_bracket_def Let_def)

lemma layout_cases:
  assumes "layout this = Inr this'"
  obtains (no_anchor) "anchor1 this = None \<or> anchor2 this = None"
      "this' = this\<lparr>middleElems := None, flatBeams := None\<rparr>"
  | (beamed) a1 a2 this1 where "anchor1 this = Some a1" "anchor2 this = Some a2"
      "layout_hasBeam a1 a2"
      "layout_beamed a1 a2 (this\<lparr>hasBeam := Some True\<rparr>) = Inr this1"
      "this' = this1\<lparr>middleElems := None, flatBeams := None\<rparr>"
  | (bracket) a1 a2 this1 where "anchor1 this = Some a1" "anchor2 this = Some a2"
      "\<not> layout_hasBeam a1 a2"
      "layout_bracket a1 a2 (this\<lparr>hasBeam := Some False\<rparr>) = Inr this1"
      "this' = this1\<lparr>middleElems := None, flatBeams := None\<rparr>"
proof (cases "anchor1 this")
  case None
  with assms no_anchor show ?thesis by (simp add: layout_def)
next
  case a1: (Some a1)
  show ?thesis
  proof (cases "anchor2 this")
    case None
    with assms a1 no_anchor show ?thesis by (simp add: layout_def)
  next
    case a2: (Some a2)
    show ?thesis
    proof (cases "layout_hasBeam a1 a2")
      case True
      with assms a1 a2 beamed show ?thesis
        by (cases "layout_beamed a1 a2 (this\<lparr>hasBeam := Some True\<rparr>)") (simp_all add: layout_def)
    next
      case False
      with assms a1 a2 bracket show ?thesis
        by (cases "layout_bracket a1 a2 (this\<lparr>hasBeam := Some False\<rparr>)") (simp_all add: layout_def)
    qed
  qed
qed

lemma layout_anchors:
  assumes "layout this = Inr this'"
  shows "anchor1 this' = anchor1 this \<and> anchor2 this' = anchor2 this \<and> number this' = number this"
  using assms
proof (cases rule: layout_cases)
  case no_anchor
  then show ?thesis by simp
next
  case (beamed a1 a2 this1)
  from layout_beamed_keeps [OF beamed(4)] beamed(5) show ?thesis by simp
next
  case (bracket a1 a2 this1)
  from layout_bracket_keeps [OF bracket(4)] bracket(5) show ?thesis by simp
qed

text \<open>
  C8. When \<open>layout\<close> of a triplet with both anchors ends with \<open>hasBeam\<close> true, the beam \<open>b\<close> of
  the first parent gives the label position: \<open>yTextPos\<close> is the height
  \<open>heightAtMidpoint\<close> reports between the first anchor (its right edge when the beam is
  above, its left edge otherwise) and the second anchor's \<open>x\<close>, plus 3 when the beam is above
  and minus 2 when it is below; \<open>top\<close> is \<open>yTextPos + 1\<close> and \<open>bottom\<close> is \<open>yTextPos - 2\<close>. Drawing
  that triplet emits one primitive, the centered label, and no path.
\<close>

theorem layout_beamed_label:
  assumes a1: "anchor1 this = Some a1" and a2: "anchor2 this = Some a2"
    and lay: "layout this = Inr this'" and hb: "hasBeam this' = Some True"
  shows "\<exists>b. beam (parent a1) = Some b
     \<and> yTextPos this' =
         Some (heightAtMidpoint b (if isAbove b then rel_x a1 + rel_w a1 else rel_x a1) (rel_x a2)
               + (if isAbove b then 3 else - 2))
     \<and> triplet_top this' =
         Some (heightAtMidpoint b (if isAbove b then rel_x a1 + rel_w a1 else rel_x a1) (rel_x a2)
               + (if isAbove b then 3 else - 2) + 1)
     \<and> triplet_bottom this' =
         Some (heightAtMidpoint b (if isAbove b then rel_x a1 + rel_w a1 else rel_x a1) (rel_x a2)
               + (if isAbove b then 3 else - 2) - 2)
     \<and> drawTriplet calcY this' =
         Inr [Text \<lparr>text_x = xAtMidpoint b (if isAbove b then rel_x a1 + rel_w a1 else rel_x a1) (rel_x a2),
                    text_y = calcY (heightAtMidpoint b (if isAbove b then rel_x a1 + rel_w a1 else rel_x a1) (rel_x a2)
                                    + (if isAbove b then 3 else - 2)),
                    text_label = number this, text_type = ''tripletfont'',
                    text_anchor = ''middle'', centerVertically = True\<rparr>]"
proof -
  have beamed: "layout_hasBeam a1 a2"
  proof (rule ccontr)
    assume nb: "\<not> layout_hasBeam a1 a2"
    from lay have "hasBeam this' = Some False"
    proof (cases rule: layout_cases)
      case no_anchor
      with a1 a2 show ?thesis by simp
    next
      case (beamed b1 b2 this1)
      with a1 a2 nb show ?thesis by simp
    next
      case (bracket b1 b2 this1)
      from layout_bracket_keeps [OF bracket(4)] bracket(5) show ?thesis by simp
    qed
    with hb show False by simp
  qed
  let ?start = "this\<lparr>hasBeam := Some True\<rparr>"
  from layout_beamed_returns [OF beamed, of ?start]
  obtain b where b: "beam (parent a1) = Some b"
    and r: "layout_beamed a1 a2 ?start =
       Inr ((if isAbove b then (\<lambda>t. t\<lparr>endingHeightAbove := Some 4\<rparr>) else (\<lambda>t. t))
            (?start\<lparr>yTextPos := Some (heightAtMidpoint b (if isAbove b then rel_x a1 + rel_w a1 else rel_x a1) (rel_x a2)
                                   + (if isAbove b then 3 else - 2)),
                  triplet_top := Some (heightAtMidpoint b (if isAbove b then rel_x a1 + rel_w a1 else rel_x a1) (rel_x a2)
                                   + (if isAbove b then 3 else - 2) + 1),
                  triplet_bottom := Some (heightAtMidpoint b (if isAbove b then rel_x a1 + rel_w a1 else rel_x a1) (rel_x a2)
                                   + (if isAbove b then 3 else - 2) - 2)\<rparr>))"
    by blast
  from lay beamed a1 a2 r have this': "this' =
       ((if isAbove b then (\<lambda>t. t\<lparr>endingHeightAbove := Some 4\<rparr>) else (\<lambda>t. t))
            (?start\<lparr>yTextPos := Some (heightAtMidpoint b (if isAbove b then rel_x a1 + rel_w a1 else rel_x a1) (rel_x a2)
                                   + (if isAbove b then 3 else - 2)),
                  triplet_top := Some (heightAtMidpoint b (if isAbove b then rel_x a1 + rel_w a1 else rel_x a1) (rel_x a2)
                                   + (if isAbove b then 3 else - 2) + 1),
                  triplet_bottom := Some (heightAtMidpoint b (if isAbove b then rel_x a1 + rel_w a1 else rel_x a1) (rel_x a2)
                                   + (if isAbove b then 3 else - 2) - 2)\<rparr>))\<lparr>middleElems := None, flatBeams := None\<rparr>"
    by (simp add: layout_def)
  have fields: "yTextPos this' =
         Some (heightAtMidpoint b (if isAbove b then rel_x a1 + rel_w a1 else rel_x a1) (rel_x a2)
               + (if isAbove b then 3 else - 2))"
     "triplet_top this' =
         Some (heightAtMidpoint b (if isAbove b then rel_x a1 + rel_w a1 else rel_x a1) (rel_x a2)
               + (if isAbove b then 3 else - 2) + 1)"
     "triplet_bottom this' =
         Some (heightAtMidpoint b (if isAbove b then rel_x a1 + rel_w a1 else rel_x a1) (rel_x a2)
               + (if isAbove b then 3 else - 2) - 2)"
    by (simp_all add: this')
  from layout_anchors [OF lay] a1 a2 have same: "anchor1 this' = Some a1" "anchor2 this' = Some a2"
      "number this' = number this"
    by simp_all
  have draw: "drawTriplet calcY this' =
         Inr [Text \<lparr>text_x = xAtMidpoint b (if isAbove b then rel_x a1 + rel_w a1 else rel_x a1) (rel_x a2),
                    text_y = calcY (heightAtMidpoint b (if isAbove b then rel_x a1 + rel_w a1 else rel_x a1) (rel_x a2)
                                    + (if isAbove b then 3 else - 2)),
                    text_label = number this, text_type = ''tripletfont'',
                    text_anchor = ''middle'', centerVertically = True\<rparr>]"
    by (simp add: drawTriplet_def same hb b fields Let_def)
  from b fields draw show ?thesis by blast
qed

theorem layout_beamed_label_witness:
  "layout (example_triplet (Some (example_anchor 1 5 ''note'' (Some example_beam) 100))
              (Some (example_anchor 3 6 ''note'' (Some example_beam) 160)) [\<lparr>mid_top = 6\<rparr>])
     = Inr ((example_triplet (Some (example_anchor 1 5 ''note'' (Some example_beam) 100))
              (Some (example_anchor 3 6 ''note'' (Some example_beam) 160)) [\<lparr>mid_top = 6\<rparr>])
            \<lparr>middleElems := None, flatBeams := None, endingHeightAbove := Some 4,
             hasBeam := Some True, yTextPos := Some 13, triplet_top := Some 14,
             triplet_bottom := Some 11\<rparr>)
   \<and> drawTriplet (\<lambda>v. 200 - 3 * v)
        ((example_triplet (Some (example_anchor 1 5 ''note'' (Some example_beam) 100))
              (Some (example_anchor 3 6 ''note'' (Some example_beam) 160)) [\<lparr>mid_top = 6\<rparr>])
            \<lparr>middleElems := None, flatBeams := None, endingHeightAbove := Some 4,
             hasBeam := Some True, yTextPos := Some 13, triplet_top := Some 14,
             triplet_bottom := Some 11\<rparr>)
     = Inr [Text \<lparr>text_x = 134, text_y = 161, text_label = 3, text_type = ''tripletfont'',
                  text_anchor = ''middle'', centerVertically = True\<rparr>]"
proof -
  let ?t = "example_triplet (Some (example_anchor 1 5 ''note'' (Some example_beam) 100))
              (Some (example_anchor 3 6 ''note'' (Some example_beam) 160)) [\<lparr>mid_top = 6\<rparr>]"
  let ?t' = "?t\<lparr>middleElems := None, flatBeams := None, endingHeightAbove := Some 4,
             hasBeam := Some True, yTextPos := Some 13, triplet_top := Some 14,
             triplet_bottom := Some 11\<rparr>"
  have a1: "anchor1 ?t = Some (example_anchor 1 5 ''note'' (Some example_beam) 100)"
    and a2: "anchor2 ?t = Some (example_anchor 3 6 ''note'' (Some example_beam) 160)"
    by (simp_all add: example_triplet_def)
  have lay: "layout ?t = Inr ?t'"
    by (simp add: layout_def layout_hasBeam_def layout_beamed_def js_index_def Let_def
        example_triplet_def example_anchor_def example_beam_def)
  have hb: "hasBeam ?t' = Some True" by simp
  from layout_beamed_label [OF a1 a2 lay hb, of "\<lambda>v. 200 - 3 * v"] lay show ?thesis
    by (simp add: example_triplet_def example_anchor_def example_beam_def)
qed

text \<open>
  C9. On a triplet that lacks an anchor, \<open>layout\<close> computes nothing: \<open>hasBeam\<close>, \<open>startNote\<close>,
  \<open>endNote\<close>, \<open>yTextPos\<close>, \<open>top\<close> and \<open>bottom\<close> stay as they were. It still deletes the two
  scratch fields \<open>middleElems\<close> and \<open>flatBeams\<close>, and changes nothing else.
\<close>

theorem layout_without_anchor:
  assumes "anchor1 this = None \<or> anchor2 this = None"
  shows "layout this = Inr (this\<lparr>middleElems := None, flatBeams := None\<rparr>)
     \<and> (\<exists>this'. layout this = Inr this'
          \<and> hasBeam this' = hasBeam this \<and> startNote this' = startNote this
          \<and> endNote this' = endNote this \<and> yTextPos this' = yTextPos this
          \<and> triplet_top this' = triplet_top this \<and> triplet_bottom this' = triplet_bottom this
          \<and> middleElems this' = None \<and> flatBeams this' = None)"
  using assms by (auto simp add: layout_def split: option.splits)

theorem layout_without_anchor_witness:
  "anchor2 (example_triplet (Some (example_anchor 1 5 ''note'' None 100)) None []) = None
   \<and> layout (example_triplet (Some (example_anchor 1 5 ''note'' None 100)) None [])
     = Inr ((example_triplet (Some (example_anchor 1 5 ''note'' None 100)) None [])
            \<lparr>middleElems := None, flatBeams := None\<rparr>)"
proof -
  have none: "anchor1 (example_triplet (Some (example_anchor 1 5 ''note'' None 100)) None []) = None
      \<or> anchor2 (example_triplet (Some (example_anchor 1 5 ''note'' None 100)) None []) = None"
    by (simp add: example_triplet_def)
  from layout_without_anchor [OF none] show ?thesis
    by (simp add: example_triplet_def)
qed

text \<open>
  C9 as the specification words it (the state is left unchanged) fails on a triplet that
  was never closed: its list of middle elements is gone after \<open>layout\<close>.
\<close>

theorem layout_without_anchor_counterexample:
  "anchor2 (example_triplet (Some (example_anchor 1 5 ''note'' None 100)) None []) = None
   \<and> middleElems (example_triplet (Some (example_anchor 1 5 ''note'' None 100)) None []) = Some []
   \<and> layout (example_triplet (Some (example_anchor 1 5 ''note'' None 100)) None [])
     \<noteq> Inr (example_triplet (Some (example_anchor 1 5 ''note'' None 100)) None [])"
  by (simp add: layout_def example_triplet_def)

lemma foldl_max_Max:
  "foldl (\<lambda>m e. max m (mid_top e)) m0 ms = Max (insert m0 (mid_top ` set ms))"
proof (induction ms arbitrary: m0)
  case Nil
  show ?case by simp
next
  case (Cons e ms)
  show ?case
    by (simp add: Cons Max_insert_max del: Max_insert)
qed

text \<open>
  C3. For a triplet with both anchors that is laid out as a bracket, \<open>startNote\<close> and
  \<open>endNote\<close> are each at least 13 (4 above position 9) and at least 4 above the top of every
  middle element. Let the bound of an endpoint be 4 above the larger of 9 and the top of
  its anchor's parent, where for an anchor on a rest, the other anchor not on a rest, the
  other anchor's parent is taken (the bracket is made horizontal). Then each endpoint is
  at least its bound whenever the interior maximum plus 4 (the maximum over 0 and the tops
  of the middle elements) does not lie strictly between the two bounds.
\<close>

theorem layout_bracket_bounds:
  assumes a1: "anchor1 this = Some a1" and a2: "anchor2 this = Some a2"
    and ms: "middleElems this = Some ms" and nb: "\<not> layout_hasBeam a1 a2"
  shows "\<exists>this' s e. layout this = Inr this' \<and> hasBeam this' = Some False
     \<and> startNote this' = Some s \<and> endNote this' = Some e
     \<and> 13 \<le> s \<and> 13 \<le> e
     \<and> (\<forall>m\<in>set ms. 4 + mid_top m \<le> s \<and> 4 + mid_top m \<le> e)
     \<and> (\<not> (min (4 + max 9 (abs_top (parent (if abs_type (parent a1) = ''rest'' \<and> abs_type (parent a2) \<noteq> ''rest''
                                              then a2 else a1))))
                (4 + max 9 (abs_top (parent (if abs_type (parent a2) = ''rest'' \<and> abs_type (parent a1) \<noteq> ''rest''
                                              then a1 else a2))))
            < 4 + Max (insert 0 (mid_top ` set ms))
          \<and> 4 + Max (insert 0 (mid_top ` set ms))
            < max (4 + max 9 (abs_top (parent (if abs_type (parent a1) = ''rest'' \<and> abs_type (parent a2) \<noteq> ''rest''
                                                then a2 else a1))))
                  (4 + max 9 (abs_top (parent (if abs_type (parent a2) = ''rest'' \<and> abs_type (parent a1) \<noteq> ''rest''
                                                then a1 else a2)))))
        \<longrightarrow> 4 + max 9 (abs_top (parent (if abs_type (parent a1) = ''rest'' \<and> abs_type (parent a2) \<noteq> ''rest''
                                          then a2 else a1))) \<le> s
          \<and> 4 + max 9 (abs_top (parent (if abs_type (parent a2) = ''rest'' \<and> abs_type (parent a1) \<noteq> ''rest''
                                          then a1 else a2))) \<le> e)"
proof -
  define rs where "rs \<longleftrightarrow> abs_type (parent a1) = ''rest'' \<and> abs_type (parent a2) \<noteq> ''rest''"
  define re where "re \<longleftrightarrow> abs_type (parent a2) = ''rest'' \<and> abs_type (parent a1) \<noteq> ''rest''"
  define s0 where "s0 = max (abs_top (parent a1)) 9 + 4"
  define e0 where "e0 = max (abs_top (parent a2)) 9 + 4"
  define s1 where "s1 = (if rs then e0 else s0)"
  define e1 where "e1 = (if rs then e0 else if re then s1 else e0)"
  define m1 where "m1 = foldl (\<lambda>m e. max m (mid_top e)) 0 ms + 4"
  define s2 where "s2 = (if m1 > s1 \<or> m1 > e1 then m1 else s1)"
  define e2 where "e2 = (if m1 > s1 \<or> m1 > e1 then m1 else e1)"
  define s3 where "s3 = (if flatBeams this = Some True then max s2 e2 else s2)"
  define e3 where "e3 = (if flatBeams this = Some True then max s3 e2 else e2)"
  let ?start = "this\<lparr>hasBeam := Some False\<rparr>"
  have ms': "middleElems ?start = Some ms" and fb: "flatBeams ?start = flatBeams this"
    using ms by simp_all
  have lb: "layout_bracket a1 a2 ?start
        = Inr (?start\<lparr>startNote := Some s3, endNote := Some e3,
                       yTextPos := Some (s3 + (e3 - s3) / 2),
                       triplet_top := Some (s3 + (e3 - s3) / 2 + 1)\<rparr>)"
    unfolding layout_bracket_def Let_def ms' fb s3_def e3_def s2_def e2_def m1_def s1_def e1_def
      s0_def e0_def rs_def re_def
    by (simp only: option.case)
  let ?final = "?start\<lparr>startNote := Some s3, endNote := Some e3,
                        yTextPos := Some (s3 + (e3 - s3) / 2),
                        triplet_top := Some (s3 + (e3 - s3) / 2 + 1),
                        middleElems := None, flatBeams := None\<rparr>"
  have lay: "layout this = Inr ?final"
    using a1 a2 nb lb by (simp add: layout_def)
  have fields: "hasBeam ?final = Some False" "startNote ?final = Some s3" "endNote ?final = Some e3"
    by simp_all
  have S1: "4 + max 9 (abs_top (parent (if rs then a2 else a1))) = s1"
    by (simp add: s1_def s0_def e0_def max.commute)
  have E1: "4 + max 9 (abs_top (parent (if re then a1 else a2))) = e1"
    by (auto simp add: e1_def s1_def s0_def e0_def max.commute rs_def re_def)
  have M: "4 + Max (insert 0 (mid_top ` set ms)) = m1"
    by (simp only: m1_def foldl_max_Max add.commute)
  have base: "13 \<le> s1" "13 \<le> e1"
    unfolding S1 [symmetric] E1 [symmetric] by simp_all
  have lift: "s1 \<le> s2 \<or> (e1 < m1 \<and> m1 < s1)" "e1 \<le> e2 \<or> (s1 < m1 \<and> m1 < e1)"
      "m1 \<le> s2" "m1 \<le> e2" "13 \<le> s2" "13 \<le> e2"
    using base by (auto simp add: s2_def e2_def)
  have flat: "s2 \<le> s3" "e2 \<le> e3"
    by (auto simp add: s3_def e3_def)
  have mid: "4 + mid_top m \<le> m1" if "m \<in> set ms" for m
  proof -
    from that have "mid_top m \<le> Max (insert 0 (mid_top ` set ms))"
      by (intro Max_ge) auto
    then show ?thesis unfolding M [symmetric] by simp
  qed
  have p1: "13 \<le> s3 \<and> 13 \<le> e3"
    using lift(5,6) flat by linarith
  have p2: "\<forall>m\<in>set ms. 4 + mid_top m \<le> s3 \<and> 4 + mid_top m \<le> e3"
  proof
    fix m assume "m \<in> set ms"
    from mid [OF this] lift(3,4) flat show "4 + mid_top m \<le> s3 \<and> 4 + mid_top m \<le> e3"
      by linarith
  qed
  have p3: "\<not> (min s1 e1 < m1 \<and> m1 < max s1 e1) \<longrightarrow> s1 \<le> s3 \<and> e1 \<le> e3"
  proof
    assume out: "\<not> (min s1 e1 < m1 \<and> m1 < max s1 e1)"
    have "s1 \<le> s2"
      using lift(1) out by (auto simp add: min_def max_def split: if_splits)
    moreover have "e1 \<le> e2"
      using lift(2) out by (auto simp add: min_def max_def split: if_splits)
    ultimately show "s1 \<le> s3 \<and> e1 \<le> e3"
      using flat by linarith
  qed
  have "\<exists>this' s e. layout this = Inr this' \<and> hasBeam this' = Some False
     \<and> startNote this' = Some s \<and> endNote this' = Some e
     \<and> 13 \<le> s \<and> 13 \<le> e
     \<and> (\<forall>m\<in>set ms. 4 + mid_top m \<le> s \<and> 4 + mid_top m \<le> e)
     \<and> (\<not> (min s1 e1 < m1 \<and> m1 < max s1 e1) \<longrightarrow> s1 \<le> s \<and> e1 \<le> e)"
    using lay fields p1 p2 p3 by blast
  then show ?thesis
    unfolding S1 [symmetric] E1 [symmetric] M [symmetric] rs_def re_def .
qed

theorem layout_bracket_bounds_witness:
  "\<not> layout_hasBeam (example_anchor 1 5 ''note'' None 100) (example_anchor 3 16 ''note'' None 160)
   \<and> (\<exists>this' s e.
        layout (example_triplet (Some (example_anchor 1 5 ''note'' None 100))
                  (Some (example_anchor 3 16 ''note'' None 160)) [\<lparr>mid_top = 6\<rparr>]) = Inr this'
        \<and> startNote this' = Some s \<and> endNote this' = Some e
        \<and> 13 \<le> s \<and> 13 \<le> e \<and> 4 + 6 \<le> s \<and> 4 + 6 \<le> e
        \<and> 4 + max 9 5 \<le> s \<and> 4 + max 9 16 \<le> e)"
proof -
  let ?a1 = "example_anchor 1 5 ''note'' None 100"
  let ?a2 = "example_anchor 3 16 ''note'' None 160"
  let ?t = "example_triplet (Some ?a1) (Some ?a2) [\<lparr>mid_top = 6\<rparr>]"
  have a1: "anchor1 ?t = Some ?a1" and a2: "anchor2 ?t = Some ?a2"
    and ms: "middleElems ?t = Some [\<lparr>mid_top = 6\<rparr>]"
    by (simp_all add: example_triplet_def)
  have nb: "\<not> layout_hasBeam ?a1 ?a2"
    by (simp add: layout_hasBeam_def example_anchor_def)
  from layout_bracket_bounds [OF a1 a2 ms nb] nb show ?thesis
    by (simp add: example_anchor_def, blast)
qed

text \<open>
  C3 as the specification words it fails for a first anchor on a rest whose top is 12,
  the second anchor on a note whose top is 5: the start of the bracket takes the value of
  its end, 13, below 4 + max(9, 12) = 16.
\<close>

theorem layout_bracket_bounds_counterexample:
  "layout (example_triplet (Some (example_anchor 1 12 ''rest'' None 100))
             (Some (example_anchor 3 5 ''note'' None 160)) [])
     = Inr ((example_triplet (Some (example_anchor 1 12 ''rest'' None 100))
              (Some (example_anchor 3 5 ''note'' None 160)) [])
            \<lparr>middleElems := None, flatBeams := None, hasBeam := Some False,
             yTextPos := Some 13, triplet_top := Some 14,
             startNote := Some 13, endNote := Some 13\<rparr>)
   \<and> \<not> 4 + max 9 (abs_top (parent (example_anchor 1 12 ''rest'' None 100))) \<le> (13::real)"
  by (simp add: layout_def layout_hasBeam_def layout_bracket_def Let_def
      example_triplet_def example_anchor_def)

text \<open>
  When the interior maximum plus 4 lies strictly between the two endpoints, both become
  that value: with tops 5 and 16 at the anchors and 11 in the middle, the end comes down
  from 20 to 15, below the top of its own note.
\<close>

lemma layout_bracket_flatten_lowers:
  "layout (example_triplet (Some (example_anchor 1 5 ''note'' None 100))
             (Some (example_anchor 3 16 ''note'' None 160)) [\<lparr>mid_top = 11\<rparr>])
     = Inr ((example_triplet (Some (example_anchor 1 5 ''note'' None 100))
              (Some (example_anchor 3 16 ''note'' None 160)) [\<lparr>mid_top = 11\<rparr>])
            \<lparr>middleElems := None, flatBeams := None, hasBeam := Some False,
             yTextPos := Some 15, triplet_top := Some 16,
             startNote := Some 15, endNote := Some 15\<rparr>)"
  by (simp add: layout_def layout_hasBeam_def layout_bracket_def Let_def
      example_triplet_def example_anchor_def)

section \<open>Properties of the bracket drawing\<close>

lemma drawBracket_path:
  assumes "x1 \<noteq> x2"
  shows "\<exists>lx ly rx ry.
      drawBracket calcY x1 y1 x2 y2
        = Path [(x1, calcY y1, x1, calcY y1 + 5), (x2, calcY y2, x2, calcY y2 + 5),
                (x1, calcY y1, lx, ly), (rx, ry, x2, calcY y2)]
      \<and> rx - lx = 16 \<and> (lx + rx) / 2 = (x1 + x2) / 2
      \<and> (ly - calcY y1) * (x2 - x1) = (calcY y2 - calcY y1) * (lx - x1)
      \<and> (ry - calcY y1) * (x2 - x1) = (calcY y2 - calcY y1) * (rx - x1)"
proof -
  define Y1 where "Y1 = calcY y1"
  define Y2 where "Y2 = calcY y2"
  define lx where "lx = x1 + (x2 - x1) / 2 - 8"
  define rx where "rx = x1 + (x2 - x1) / 2 + 8"
  define ly where "ly = Y1 + (lx - x1) * ((Y2 - Y1) / (x2 - x1))"
  define ry where "ry = Y1 + (rx - x1) * ((Y2 - Y1) / (x2 - x1))"
  have path: "drawBracket calcY x1 y1 x2 y2
        = Path [(x1, Y1, x1, Y1 + 5), (x2, Y2, x2, Y2 + 5), (x1, Y1, lx, ly), (rx, ry, x2, Y2)]"
    by (simp add: drawBracket_def drawLine_def Let_def Y1_def Y2_def lx_def rx_def ly_def ry_def)
  have gap: "rx - lx = 16" and centre: "(lx + rx) / 2 = (x1 + x2) / 2"
    by (simp_all add: lx_def rx_def field_simps)
  from assms have nz: "x2 - x1 \<noteq> 0" by simp
  have left: "(ly - Y1) * (x2 - x1) = (Y2 - Y1) * (lx - x1)"
    using nz by (simp add: ly_def)
  have right: "(ry - Y1) * (x2 - x1) = (Y2 - Y1) * (rx - x1)"
    using nz by (simp add: ry_def)
  from path gap centre left right show ?thesis
    unfolding Y1_def Y2_def by blast
qed

text \<open>
  C4. For a triplet drawn without a beam whose bracket ends at two different \<open>x\<close>, the path
  consists of four strokes: a vertical tick of length 5 at the first anchor's \<open>x\<close>, one at
  the second anchor's right edge \<open>x + w\<close>, and the two parts of a broken line between those
  two points. The gap between the parts is 16 wide, 8 to either side of the midpoint of
  the two \<open>x\<close>, and both inner ends lie on the straight line through the two points.
\<close>

theorem drawTriplet_bracket:
  assumes a1: "anchor1 params = Some a1" and a2: "anchor2 params = Some a2"
    and nb: "hasBeam params \<noteq> Some True"
    and sn: "startNote params = Some sn" and en: "endNote params = Some en"
    and yt: "yTextPos params = Some yt"
    and wide: "rel_x a1 \<noteq> rel_x a2 + rel_w a2"
  shows "\<exists>lx ly rx ry label.
      drawTriplet calcY params
        = Inr [Path [(rel_x a1, calcY sn, rel_x a1, calcY sn + 5),
                     (rel_x a2 + rel_w a2, calcY en, rel_x a2 + rel_w a2, calcY en + 5),
                     (rel_x a1, calcY sn, lx, ly),
                     (rx, ry, rel_x a2 + rel_w a2, calcY en)],
               Text label]
      \<and> rx - lx = 16 \<and> (lx + rx) / 2 = (rel_x a1 + (rel_x a2 + rel_w a2)) / 2
      \<and> (ly - calcY sn) * (rel_x a2 + rel_w a2 - rel_x a1) = (calcY en - calcY sn) * (lx - rel_x a1)
      \<and> (ry - calcY sn) * (rel_x a2 + rel_w a2 - rel_x a1) = (calcY en - calcY sn) * (rx - rel_x a1)"
proof -
  from drawBracket_path [OF wide, of calcY sn en]
  obtain lx ly rx ry where
    path: "drawBracket calcY (rel_x a1) sn (rel_x a2 + rel_w a2) en
        = Path [(rel_x a1, calcY sn, rel_x a1, calcY sn + 5),
                (rel_x a2 + rel_w a2, calcY en, rel_x a2 + rel_w a2, calcY en + 5),
                (rel_x a1, calcY sn, lx, ly), (rx, ry, rel_x a2 + rel_w a2, calcY en)]"
    and geo: "rx - lx = 16" "(lx + rx) / 2 = (rel_x a1 + (rel_x a2 + rel_w a2)) / 2"
      "(ly - calcY sn) * (rel_x a2 + rel_w a2 - rel_x a1) = (calcY en - calcY sn) * (lx - rel_x a1)"
      "(ry - calcY sn) * (rel_x a2 + rel_w a2 - rel_x a1) = (calcY en - calcY sn) * (rx - rel_x a1)"
    by blast
  have "\<exists>label. drawTriplet calcY params
        = Inr [drawBracket calcY (rel_x a1) sn (rel_x a2 + rel_w a2) en, Text label]"
    using a1 a2 nb sn en yt by (simp add: drawTriplet_def Let_def)
  with path geo show ?thesis by auto
qed

theorem drawTriplet_bracket_witness:
  "hasBeam ((example_triplet (Some (example_anchor 1 5 ''note'' None 100))
               (Some (example_anchor 3 5 ''note'' None 192)) [])
            \<lparr>hasBeam := Some False, startNote := Some 13, endNote := Some 13,
             yTextPos := Some 13, triplet_top := Some 14\<rparr>) \<noteq> Some True
   \<and> rel_x (example_anchor 1 5 ''note'' None 100)
       \<noteq> rel_x (example_anchor 3 5 ''note'' None 192) + rel_w (example_anchor 3 5 ''note'' None 192)
   \<and> (\<exists>lx ly rx ry label.
        drawTriplet (\<lambda>v. 200 - 3 * v)
          ((example_triplet (Some (example_anchor 1 5 ''note'' None 100))
               (Some (example_anchor 3 5 ''note'' None 192)) [])
            \<lparr>hasBeam := Some False, startNote := Some 13, endNote := Some 13,
             yTextPos := Some 13, triplet_top := Some 14\<rparr>)
        = Inr [Path [(100, 161, 100, 166), (200, 161, 200, 166), (100, 161, lx, ly),
                     (rx, ry, 200, 161)], Text label]
        \<and> rx - lx = 16 \<and> (lx + rx) / 2 = 150)"
proof -
  let ?a1 = "example_anchor 1 5 ''note'' None 100"
  let ?a2 = "example_anchor 3 5 ''note'' None 192"
  let ?p = "(example_triplet (Some ?a1) (Some ?a2) [])
            \<lparr>hasBeam := Some False, startNote := Some 13, endNote := Some 13,
             yTextPos := Some 13, triplet_top := Some 14\<rparr>"
  have a1: "anchor1 ?p = Some ?a1" and a2: "anchor2 ?p = Some ?a2"
    and nb: "hasBeam ?p \<noteq> Some True"
    and sn: "startNote ?p = Some 13" and en: "endNote ?p = Some 13" and yt: "yTextPos ?p = Some 13"
    by (simp_all add: example_triplet_def)
  have wide: "rel_x ?a1 \<noteq> rel_x ?a2 + rel_w ?a2"
    by (simp add: example_anchor_def)
  from drawTriplet_bracket [OF a1 a2 nb sn en yt wide, of "\<lambda>v. 200 - 3 * v"] nb wide
  show ?thesis
    by (simp add: example_anchor_def, blast)
qed

text \<open>
  C4 as the specification words it (a gap of exactly 8, ticks at the anchors' \<open>x\<close>) fails:
  for anchors at 100 and 192, each 8 wide, the line breaks from 142 to 158 and the second
  tick stands at 200.
\<close>

theorem drawTriplet_bracket_counterexample:
  "drawTriplet (\<lambda>v. 200 - 3 * v)
      ((example_triplet (Some (example_anchor 1 5 ''note'' None 100))
           (Some (example_anchor 3 5 ''note'' None 192)) [])
        \<lparr>hasBeam := Some False, startNote := Some 13, endNote := Some 13,
         yTextPos := Some 13, triplet_top := Some 14\<rparr>)
     = Inr [Path [(100, 161, 100, 166), (200, 161, 200, 166), (100, 161, 142, 161),
                  (158, 161, 200, 161)],
            Text \<lparr>text_x = 150, text_y = 161, text_label = 3, text_type = ''tripletfont'',
                  text_anchor = ''middle'', centerVertically = True\<rparr>]
   \<and> (158::real) - 142 \<noteq> 8
   \<and> (200::real) \<noteq> rel_x (example_anchor 3 5 ''note'' None 192)"
  by (simp add: drawTriplet_def drawBracket_def drawLine_def Let_def
      example_triplet_def example_anchor_def)

section \<open>Properties of the rest centering\<close>

lemma voice_stop:
  "\<not> int j < int (length voice) - 1 \<Longrightarrow> centerWholeRests_voice j voice = voice"
  by (subst centerWholeRests_voice.simps, rule if_not_P)

lemma voice_step:
  assumes "int j < int (length voice) - 1"
  shows "centerWholeRests_voice j voice =
     (if isWholeRest (voice ! j)
      then centerWholeRests_voice (j + 1)
             (voice[j := centered (voice ! (j - 1)) (voice ! j) (voice ! (j + 1))])
      else centerWholeRests_voice (j + 1) voice)"
  using assms
  by (subst centerWholeRests_voice.simps) (simp only: if_True Let_def isWholeRest_def centered_def)

lemma voice_invariant:
  assumes "1 \<le> j0"
  shows "length (centerWholeRests_voice j0 voice) = length voice
     \<and> (\<forall>j<length voice.
          if j0 \<le> j \<and> j + 1 < length voice \<and> isWholeRest (voice ! j)
          then centerWholeRests_voice j0 voice ! j
               = centered (centerWholeRests_voice j0 voice ! (j - 1)) (voice ! j) (voice ! (j + 1))
          else centerWholeRests_voice j0 voice ! j = voice ! j)"
  using assms
proof (induction "length voice - j0" arbitrary: j0 voice)
  case 0
  then have "\<not> int j0 < int (length voice) - 1" by simp
  then have stop: "centerWholeRests_voice j0 voice = voice" by (rule voice_stop)
  from 0 show ?case unfolding stop by auto
next
  case (Suc n)
  show ?case
  proof (cases "int j0 < int (length voice) - 1")
    case False
    then have stop: "centerWholeRests_voice j0 voice = voice" by (rule voice_stop)
    from False show ?thesis unfolding stop by auto
  next
    case go: True
    then have j0: "j0 + 1 < length voice" by simp
    define v1 where "v1 = (if isWholeRest (voice ! j0)
        then voice[j0 := centered (voice ! (j0 - 1)) (voice ! j0) (voice ! (j0 + 1))] else voice)"
    define r where "r = centerWholeRests_voice (j0 + 1) v1"
    have step: "centerWholeRests_voice j0 voice = r"
      by (simp add: voice_step [OF go] r_def v1_def)
    have len1: "length v1 = length voice" by (simp add: v1_def)
    have n: "n = length v1 - (j0 + 1)" using Suc.hyps(2) len1 by simp
    have at_j0: "v1 ! j0 = (if isWholeRest (voice ! j0)
        then centered (voice ! (j0 - 1)) (voice ! j0) (voice ! (j0 + 1)) else voice ! j0)"
      using j0 by (simp add: v1_def)
    have other: "v1 ! j = voice ! j" if "j \<noteq> j0" for j
      using that by (simp add: v1_def)
    have rest1: "isWholeRest (v1 ! j) = isWholeRest (voice ! j)" for j
      by (cases "j = j0") (simp_all add: at_j0 other isWholeRest_def centered_def)
    have "1 \<le> j0 + 1" by simp
    from Suc.hyps(1) [OF n this] have ih_len: "length r = length v1"
      and ih: "\<forall>j<length v1.
          (if j0 + 1 \<le> j \<and> j + 1 < length v1 \<and> isWholeRest (v1 ! j)
           then r ! j = centered (r ! (j - 1)) (v1 ! j) (v1 ! (j + 1))
           else r ! j = v1 ! j)"
      unfolding r_def by blast+
    have below: "r ! j = v1 ! j" if "j \<le> j0" for j
    proof -
      from that j0 len1 have "j < length v1" "\<not> j0 + 1 \<le> j" by simp_all
      with ih show ?thesis by (metis (full_types))
    qed
    have entry: "(if j0 \<le> j \<and> j + 1 < length voice \<and> isWholeRest (voice ! j)
          then r ! j = centered (r ! (j - 1)) (voice ! j) (voice ! (j + 1))
          else r ! j = voice ! j)" if j: "j < length voice" for j
    proof -
      consider "j < j0" | "j = j0" | "j0 < j" by linarith
      then show ?thesis
      proof cases
        case 1
        with below [of j] other [of j] show ?thesis by simp
      next
        case 2
        have "r ! (j0 - 1) = v1 ! (j0 - 1)"
          using below [of "j0 - 1"] by simp
        with other [of "j0 - 1"] Suc.prems have prev: "r ! (j0 - 1) = voice ! (j0 - 1)" by simp
        from below [of j0] have "r ! j0 = v1 ! j0" by simp
        with 2 prev j0 at_j0 show ?thesis by simp
      next
        case 3
        then have same: "v1 ! j = voice ! j" "v1 ! (j + 1) = voice ! (j + 1)"
          by (simp_all add: other)
        from j len1 have "j < length v1" by simp
        with ih have "(if j0 + 1 \<le> j \<and> j + 1 < length v1 \<and> isWholeRest (v1 ! j)
           then r ! j = centered (r ! (j - 1)) (v1 ! j) (v1 ! (j + 1))
           else r ! j = v1 ! j)" by blast
        with 3 show ?thesis
          by (simp only: len1 same rest1) simp
      qed
    qed
    from ih_len len1 entry show ?thesis
      unfolding step by simp
  qed
qed


text \<open>
  C6. After \<open>centerWholeRests\<close> every voice has its elements in place and, for the element at
  \<open>j\<close> of voice \<open>i\<close>: when it is neither first nor last and is a rest of type whole or
  multimeasure, its \<open>x\<close> is the midpoint between the \<open>x\<close> its left neighbour has after the pass
  and the \<open>x\<close> its right neighbour had before the pass, minus half its own width; each of its
  children has that \<open>x\<close>, and its width and rest are as before. Every other element is
  unchanged. (A left neighbour that is not itself such a rest has the same \<open>x\<close> before and
  after, so neighbours at 10 and 50 give \<open>30 - w / 2\<close>.)
\<close>

theorem centerWholeRests_positions:
  assumes i: "i < length voices" and j: "j < length (voices ! i)"
  shows "length (centerWholeRests voices) = length voices
     \<and> length (centerWholeRests voices ! i) = length (voices ! i)
     \<and> (if 1 \<le> j \<and> j + 1 < length (voices ! i)
            \<and> (rest (voices ! i ! j) = Some ''whole'' \<or> rest (voices ! i ! j) = Some ''multimeasure'')
         then elem_x (centerWholeRests voices ! i ! j)
                = (elem_x (centerWholeRests voices ! i ! (j - 1)) + elem_x (voices ! i ! (j + 1))) / 2
                  - elem_w (voices ! i ! j) / 2
              \<and> children (centerWholeRests voices ! i ! j)
                = map (\<lambda>c. c\<lparr>child_x := elem_x (centerWholeRests voices ! i ! j)\<rparr>)
                    (children (voices ! i ! j))
              \<and> elem_w (centerWholeRests voices ! i ! j) = elem_w (voices ! i ! j)
              \<and> rest (centerWholeRests voices ! i ! j) = rest (voices ! i ! j)
         else centerWholeRests voices ! i ! j = voices ! i ! j)"
proof -
  let ?v = "voices ! i"
  let ?r = "centerWholeRests_voice 1 ?v"
  have r: "centerWholeRests voices ! i = ?r"
    using i by (simp add: centerWholeRests_def)
  have one: "1 \<le> (1::nat)" by simp
  have inv: "length ?r = length ?v"
    "if 1 \<le> j \<and> j + 1 < length ?v \<and> isWholeRest (?v ! j)
     then ?r ! j = centered (?r ! (j - 1)) (?v ! j) (?v ! (j + 1))
     else ?r ! j = ?v ! j"
    using voice_invariant [OF one, of ?v] j by blast+
  have mid: "(b - a) / 2 + a - w / 2 = (a + b) / 2 - w / 2" for a b w :: real
    by (simp add: field_simps)
  show ?thesis
  proof (cases "1 \<le> j \<and> j + 1 < length ?v \<and> isWholeRest (?v ! j)")
    case True
    with inv(2) have "?r ! j = centered (?r ! (j - 1)) (?v ! j) (?v ! (j + 1))"
      by (simp only: if_True)
    then have fields: "elem_x (?r ! j)
          = (elem_x (?r ! (j - 1)) + elem_x (?v ! (j + 1))) / 2 - elem_w (?v ! j) / 2"
        "children (?r ! j) = map (\<lambda>c. c\<lparr>child_x := elem_x (?r ! j)\<rparr>) (children (?v ! j))"
        "elem_w (?r ! j) = elem_w (?v ! j)" "rest (?r ! j) = rest (?v ! j)"
      by (simp_all add: centered_def mid)
    from True have cond: "1 \<le> j \<and> j + 1 < length ?v
        \<and> (rest (?v ! j) = Some ''whole'' \<or> rest (?v ! j) = Some ''multimeasure'')"
      by (simp add: isWholeRest_def)
    have lens: "length (centerWholeRests voices) = length voices"
      by (simp add: centerWholeRests_def)
    from fields inv(1) cond lens show ?thesis
      unfolding r by simp
  next
    case False
    with inv(2) have same: "?r ! j = ?v ! j" by (simp only: if_False)
    from False have cond: "\<not> (1 \<le> j \<and> j + 1 < length ?v
        \<and> (rest (?v ! j) = Some ''whole'' \<or> rest (?v ! j) = Some ''multimeasure''))"
      by (simp add: isWholeRest_def)
    have lens: "length (centerWholeRests voices) = length voices"
      by (simp add: centerWholeRests_def)
    from same inv(1) cond lens show ?thesis
      unfolding r by auto
  qed
qed

theorem centerWholeRests_positions_witness:
  "(0::nat) < length [[example_element 10 4 None, example_element 17 6 (Some ''whole''),
                       example_element 50 4 None]]
   \<and> elem_x (centerWholeRests [[example_element 10 4 None, example_element 17 6 (Some ''whole''),
                       example_element 50 4 None]] ! 0 ! 1) = 30 - 6 / 2
   \<and> children (centerWholeRests [[example_element 10 4 None, example_element 17 6 (Some ''whole''),
                       example_element 50 4 None]] ! 0 ! 1) = [\<lparr>child_x = 27\<rparr>]
   \<and> centerWholeRests [[example_element 10 4 None, example_element 17 6 (Some ''whole''),
                       example_element 50 4 None]] ! 0 ! 0 = example_element 10 4 None"
  using centerWholeRests_positions [of 0 "[[example_element 10 4 None,
        example_element 17 6 (Some ''whole''), example_element 50 4 None]]" 0]
    centerWholeRests_positions [of 0 "[[example_element 10 4 None,
        example_element 17 6 (Some ''whole''), example_element 50 4 None]]" 1]
  by (simp add: example_element_def)

text \<open>
  C6 as the specification words it fails where two such rests are neighbours, whether the
  neighbours' \<open>x\<close> are read after or before the pass: the first rest is centered against the
  old \<open>x\<close> of the second, the second against the new \<open>x\<close> of the first.
\<close>

theorem centerWholeRests_adjacent_counterexample:
  "centerWholeRests [[example_element 0 0 None, example_element 12 0 (Some ''whole''),
                      example_element 20 0 (Some ''whole''), example_element 40 0 None]]
     = [[example_element 0 0 None,
         (example_element 12 0 (Some ''whole''))\<lparr>elem_x := 10, children := [\<lparr>child_x = 10\<rparr>]\<rparr>,
         (example_element 20 0 (Some ''whole''))\<lparr>elem_x := 25, children := [\<lparr>child_x = 25\<rparr>]\<rparr>,
         example_element 40 0 None]]
   \<and> (10::real) \<noteq> (0 + 25) / 2 - 0 / 2
   \<and> (25::real) \<noteq> (12 + 40) / 2 - 0 / 2"
  by (simp add: centerWholeRests_def centerWholeRests_voice.simps example_element_def Let_def)

end
